theory Spec2Isabelle
  imports Main
begin

section \<open>The NLTK Twitter client: retrieval and dispatch\<close>

text \<open>
  A shallow embedding of \<^verbatim>\<open>nltk/twitter/twitterclient.py\<close>: the handlers
  \<^verbatim>\<open>TweetViewer\<close> and \<^verbatim>\<open>TweetWriter\<close>, the streaming engine \<^verbatim>\<open>Streamer\<close> and the
  search engine \<^verbatim>\<open>Query\<close>. Objects are records, every method takes the object and the
  world and returns both updated. Everything a method does to the outside (printing,
  files, the clock, the network, sleeping) is an event appended to the world's trace.
\<close>

subsection \<open>Records, errors, events\<close>

text \<open>
  A Tweet as the API returns it: \<^verbatim>\<open>data['id']\<close>, \<^verbatim>\<open>data['text']\<close> and
  \<^verbatim>\<open>data['created_at']\<close>, the last one already parsed by \<^verbatim>\<open>strptime\<close> into
  seconds. A message of the stream either is such a status or has no \<^verbatim>\<open>'text'\<close>
  key (a notice).
\<close>

record tweet =
  tweet_id :: int
  tweet_text :: string
  created_at :: int

datatype message = Status tweet | Notice

text \<open>The exceptions the modelled code can raise, one constructor per raise site or kind.\<close>

datatype error =
    No_track_follow          \<comment> \<open>\<^verbatim>\<open>ValueError("Please supply a value for 'track', 'follow'")\<close>\<close>
  | No_handler               \<comment> \<open>\<^verbatim>\<open>ValueError("No data handler has been registered.")\<close>\<close>
  | Closed_file              \<comment> \<open>\<^verbatim>\<open>ValueError\<close>: write to a closed file\<close>
  | AttributeError           \<comment> \<open>attribute of \<^verbatim>\<open>None\<close>, or attribute the class does not have\<close>
  | UnboundLocalError        \<comment> \<open>a \<^verbatim>\<open>NameError\<close>: local variable read before assignment\<close>
  | TwythonError
  | TwythonRateLimitError
  | ChunkedEncodingError

datatype msg =
    Tweet_text string                \<comment> \<open>\<^verbatim>\<open>print(text)\<close>\<close>
  | Written int                      \<comment> \<open>\<^verbatim>\<open>'Written {0} Tweets'\<close>\<close>
  | Writing_to string                \<comment> \<open>\<^verbatim>\<open>'Writing to {0}'\<close>\<close>
  | Date_limit int string int        \<comment> \<open>\<^verbatim>\<open>'Date limit {0} is {1} than date of current tweet {2}'\<close>\<close>
  | No_tweets_available              \<comment> \<open>\<^verbatim>\<open>'No Tweets available through rest api for those keywords'\<close>\<close>
  | No_more_tweets                   \<comment> \<open>\<^verbatim>\<open>'No more Tweets available through rest api'\<close>\<close>
  | Waiting_15_minutes               \<comment> \<open>\<^verbatim>\<open>'Waiting for 15 minutes -{0}'\<close>\<close>
  | Fatal_error                      \<comment> \<open>\<^verbatim>\<open>'Fatal error in Twython request -{0}'\<close>\<close>
  | Stream_will_continue             \<comment> \<open>\<^verbatim>\<open>'Error (stream will continue): {0}'\<close>\<close>

datatype event =
    Print msg
  | Mkdir string
  | Open_file string bool            \<comment> \<open>path, and whether through \<^verbatim>\<open>gzip.open\<close>\<close>
  | Write_line string tweet          \<comment> \<open>one line of JSON written to the path\<close>
  | Close_file string
  | Sleep nat
  | Search string int string "int option"   \<comment> \<open>q, count, lang, max_id\<close>
  | Yield tweet
  | Statuses_sample
  | Statuses_filter string string string    \<comment> \<open>track, follow, lang\<close>
  | Disconnect

text \<open>
  The world: the trace of events so far, the clock (the i-th call of
  \<^verbatim>\<open>datetime.now().strftime(fmt)\<close> returns \<open>clock i\<close>), the number of clock reads so
  far, and the directories that exist.
\<close>

record world =
  trace :: "event list"
  clock :: "nat \<Rightarrow> string"
  reads :: nat
  dirs :: "string list"

definition emit :: "event \<Rightarrow> world \<Rightarrow> world" where
  "emit e w = w\<lparr>trace := trace w @ [e]\<rparr>"

definition now :: "world \<Rightarrow> string \<times> world" where
  "now w = (clock w (reads w), w\<lparr>reads := Suc (reads w)\<rparr>)"

text \<open>A Python file object: where it writes and whether \<^verbatim>\<open>close()\<close> was called on it.\<close>

record pyfile =
  path :: string
  is_closed :: bool

datatype handler_class = TweetViewer | TweetWriter | BasicTweetHandler

text \<open>
  A handler object. \<open>counter\<close>, \<open>limit\<close>, \<open>do_stop\<close>, \<open>date_limit\<close> and \<open>startingup\<close> are
  the attributes the code reads from its base class; the others are set by
  \<^verbatim>\<open>TweetWriter.__init__\<close>. \<open>date_limit\<close> is a \<^verbatim>\<open>datetime\<close> in seconds, or \<^verbatim>\<open>None\<close>.
\<close>

record handler =
  cls :: handler_class
  counter :: int
  limit :: int
  do_stop :: bool
  date_limit :: "int option"
  startingup :: bool
  fprefix :: string
  subdir :: string
  gzip_compress :: bool
  fname :: string
  stream :: bool
  repeat :: bool
  max_id :: "int option"
  output_file :: "pyfile option"

subsection \<open>TweetViewer\<close>

text \<open>
  \<^verbatim>\<open>
  def handle(self, data):
      text = data['text']
      print(text)
      self.counter += 1

  def on_finish(self):
      print('Written {0} Tweets'.format(self.counter))
  \<close>
\<close>

definition TweetViewer_handle :: "tweet \<Rightarrow> handler \<Rightarrow> world \<Rightarrow> handler \<times> world" where
  "TweetViewer_handle data h w =
     (h\<lparr>counter := counter h + 1\<rparr>, emit (Print (Tweet_text (tweet_text data))) w)"

definition TweetViewer_on_finish :: "handler \<Rightarrow> world \<Rightarrow> handler \<times> world" where
  "TweetViewer_on_finish h w = (h, emit (Print (Written (counter h))) w)"

subsection \<open>TweetWriter\<close>

text \<open>\<^verbatim>\<open>os.path.join\<close> of two POSIX path components.\<close>

definition os_path_join :: "string \<Rightarrow> string \<Rightarrow> string" where
  "os_path_join a b =
     (if b \<noteq> [] \<and> hd b = CHR ''/'' then b
      else if a = [] \<or> last a = CHR ''/'' then a @ b
      else a @ ''/'' @ b)"

text \<open>
  \<^verbatim>\<open>
  def timestamped_file(self):
      subdir = self.subdir
      fprefix = self.fprefix
      if subdir:
          if not os.path.exists(subdir):
              os.mkdir(subdir)
      fname = os.path.join(subdir, fprefix)
      fmt = '%Y%m%d-%H%M%S'
      timestamp = datetime.datetime.now().strftime(fmt)
      if self.gzip_compress:
          suffix = '.gz'
      else:
          suffix = ''
      outfile = '{0}.{1}.json{2}'.format(fname, timestamp, suffix)
      return outfile
  \<close>
\<close>

definition timestamped_file :: "handler \<Rightarrow> world \<Rightarrow> string \<times> world" where
  "timestamped_file h w =
     (let w1 = (if subdir h \<noteq> [] \<and> subdir h \<notin> set (dirs w)
                then (emit (Mkdir (subdir h)) w)\<lparr>dirs := subdir h # dirs w\<rparr>
                else w);
          name = os_path_join (subdir h) (fprefix h);
          (timestamp, w2) = now w1;
          suffix = (if gzip_compress h then ''.gz'' else [])
      in (name @ ''.'' @ timestamp @ ''.json'' @ suffix, w2))"

text \<open>
  \<^verbatim>\<open>
  def handle(self, data):
      if self.startingup:
          if self.gzip_compress:
              self.output = gzip.open(self.fname, 'w')
          else:
              self.output = open(self.fname, 'w')
          print('Writing to {0}'.format(self.fname))

      json_data = json.dumps(data)
      if self.gzip_compress:
          self.output.write((json_data + "\n").encode('utf-8'))
      else:
          self.output.write(json_data + "\n")

      if self.date_limit:
          tweet_date = datetime.datetime.strptime(data['created_at'], ...).replace(tzinfo=UTC)
          if (tweet_date > self.date_limit and self.stream == True) or \
             (tweet_date < self.date_limit and self.stream == False):
              if self.stream:
                  message = "earlier"
              else:
                  message = "later"
              print("Date limit {0} is {1} than date of current tweet {2}".
                    format(self.date_limit, message, tweet_date))
              self.do_stop = True
              return

      self.startingup = False
  \<close>
  The write fails when no file was ever opened (\<^verbatim>\<open>self.output\<close> is \<^verbatim>\<open>None\<close>) or the
  file is closed; the error, if any, is the first component of the result.
\<close>

definition open_output :: "handler \<Rightarrow> world \<Rightarrow> handler \<times> world" where
  "open_output h w =
     (if startingup h
      then (h\<lparr>output_file := Some \<lparr>path = fname h, is_closed = False\<rparr>\<rparr>,
            emit (Print (Writing_to (fname h))) (emit (Open_file (fname h) (gzip_compress h)) w))
      else (h, w))"

definition crosses_date_limit :: "tweet \<Rightarrow> handler \<Rightarrow> bool" where
  "crosses_date_limit data h =
     (case date_limit h of
        None \<Rightarrow> False
      | Some d \<Rightarrow> (created_at data > d \<and> stream h = True) \<or> (created_at data < d \<and> stream h = False))"

definition TweetWriter_handle :: "tweet \<Rightarrow> handler \<Rightarrow> world \<Rightarrow> error option \<times> handler \<times> world" where
  "TweetWriter_handle data h w =
     (case open_output h w of (h1, w1) \<Rightarrow>
        (case output_file h1 of
           None \<Rightarrow> (Some AttributeError, h1, w1)
         | Some f \<Rightarrow>
             if is_closed f then (Some Closed_file, h1, w1)
             else
               (let w2 = emit (Write_line (path f) data) w1 in
                if crosses_date_limit data h1
                then (None, h1\<lparr>do_stop := True\<rparr>,
                      emit (Print (Date_limit (the (date_limit h1))
                                     (if stream h1 then ''earlier'' else ''later'')
                                     (created_at data))) w2)
                else (None, h1\<lparr>startingup := False\<rparr>, w2))))"

text \<open>
  \<^verbatim>\<open>
  def on_finish(self):
      print('Written {0} Tweets'.format(self.counter))
      if self.output:
          self.output.close()
  \<close>
  Closing a file that is closed already does nothing.
\<close>

definition TweetWriter_on_finish :: "handler \<Rightarrow> world \<Rightarrow> handler \<times> world" where
  "TweetWriter_on_finish h w =
     (let w1 = emit (Print (Written (counter h))) w in
      case output_file h of
        None \<Rightarrow> (h, w1)
      | Some f \<Rightarrow>
          if is_closed f then (h, w1)
          else (h\<lparr>output_file := Some (f\<lparr>is_closed := True\<rparr>)\<rparr>, emit (Close_file (path f)) w1))"

text \<open>
  \<^verbatim>\<open>
  def _restart_file(self):
      self.on_finish()
      self.fname = self.timestamped_file()
      self.startingup = True
      self.counter = 0
  \<close>
\<close>

definition restart_file :: "handler \<Rightarrow> world \<Rightarrow> handler \<times> world" where
  "restart_file h w =
     (case TweetWriter_on_finish h w of (h1, w1) \<Rightarrow>
        (case timestamped_file h1 w1 of (name, w2) \<Rightarrow>
           (h1\<lparr>fname := name, startingup := True, counter := 0\<rparr>, w2)))"

text \<open>
  \<^verbatim>\<open>
  def do_continue(self):
      if self.repeat == False:
          return TweetHandlerI.do_continue(self)
      if self.do_stop:
          return False
      if self.counter == self.limit:
          self._restart_file()
      return True
  \<close>
  \<^verbatim>\<open>TweetHandlerI.do_continue\<close> lives in \<^verbatim>\<open>nltk/twitter/api.py\<close>; it is the parameter
  \<open>dflt\<close>, a function of the handler.
\<close>

definition TweetWriter_do_continue ::
  "(handler \<Rightarrow> bool) \<Rightarrow> handler \<Rightarrow> world \<Rightarrow> bool \<times> handler \<times> world" where
  "TweetWriter_do_continue dflt h w =
     (if repeat h = False then (dflt h, h, w)
      else if do_stop h then (False, h, w)
      else if counter h = limit h
           then (case restart_file h w of (h1, w1) \<Rightarrow> (True, h1, w1))
           else (True, h, w))"

text \<open>
  Modelled from the spec: \<^verbatim>\<open>TweetHandlerI.do_continue\<close> of \<^verbatim>\<open>nltk/twitter/api.py\<close>,
  the protocol's default policy, "false once \<^verbatim>\<open>counter >= limit\<close>", "the protocol
  default (\<^verbatim>\<open>counter < limit\<close>)".
\<close>

definition default_do_continue :: "handler \<Rightarrow> bool" where
  "default_do_continue h = (counter h < limit h)"

subsection \<open>Dispatch on the handler's class\<close>

text \<open>
  \<^verbatim>\<open>self.handler.handle(data)\<close>, \<^verbatim>\<open>self.handler.do_continue()\<close> and
  \<^verbatim>\<open>self.handler.on_finish()\<close> as the engines call them. \<^verbatim>\<open>TweetViewer\<close> inherits
  \<^verbatim>\<open>do_continue\<close>.
\<close>

text \<open>
  Modelled from the spec: the branches for \<^verbatim>\<open>BasicTweetHandler\<close> of
  \<^verbatim>\<open>nltk/twitter/api.py\<close>, which "exists solely to cap record count": it has the
  counter, the limit and the default policy, and neither \<^verbatim>\<open>handle\<close> nor
  \<^verbatim>\<open>on_finish\<close>.
\<close>

definition handler_handle :: "tweet \<Rightarrow> handler \<Rightarrow> world \<Rightarrow> error option \<times> handler \<times> world" where
  "handler_handle data h w =
     (case cls h of
        TweetViewer \<Rightarrow> (case TweetViewer_handle data h w of (h1, w1) \<Rightarrow> (None, h1, w1))
      | TweetWriter \<Rightarrow> TweetWriter_handle data h w
      | BasicTweetHandler \<Rightarrow> (Some AttributeError, h, w))"

definition handler_do_continue ::
  "(handler \<Rightarrow> bool) \<Rightarrow> handler \<Rightarrow> world \<Rightarrow> bool \<times> handler \<times> world" where
  "handler_do_continue dflt h w =
     (case cls h of
        TweetWriter \<Rightarrow> TweetWriter_do_continue dflt h w
      | _ \<Rightarrow> (dflt h, h, w))"

definition handler_on_finish :: "handler \<Rightarrow> world \<Rightarrow> error option \<times> handler \<times> world" where
  "handler_on_finish h w =
     (case cls h of
        TweetViewer \<Rightarrow> (case TweetViewer_on_finish h w of (h1, w1) \<Rightarrow> (None, h1, w1))
      | TweetWriter \<Rightarrow> (case TweetWriter_on_finish h w of (h1, w1) \<Rightarrow> (None, h1, w1))
      | BasicTweetHandler \<Rightarrow> (Some AttributeError, h, w))"

subsection \<open>A session of calls on a TweetWriter\<close>




section \<open>The streaming engine\<close>

datatype outcome = Returned | Raised error | Blocked

text \<open>
  \<^verbatim>\<open>
  def __init__(self, app_key, app_secret, oauth_token, oauth_token_secret):
      self.handler = None
      self.do_continue = True
      TwythonStreamer.__init__(...)

  def register(self, handler):
      self.handler = handler
  \<close>
  \<open>connected\<close> is the flag of \<^verbatim>\<open>TwythonStreamer\<close> that \<^verbatim>\<open>disconnect()\<close> clears.
\<close>

record streamer =
  streamer_handler :: "handler option"
  streamer_do_continue :: bool
  connected :: bool

definition Streamer_init :: streamer where
  "Streamer_init = \<lparr>streamer_handler = None, streamer_do_continue = True, connected = False\<rparr>"

definition Streamer_register :: "handler \<Rightarrow> streamer \<Rightarrow> streamer" where
  "Streamer_register h s = s\<lparr>streamer_handler := Some h\<rparr>"

text \<open>
  \<^verbatim>\<open>
  def on_success(self, data):
      if self.do_continue:
          if self.handler is not None:
              if 'text' in data:
                  self.handler.counter += 1
                  self.handler.handle(data)
                  self.do_continue = self.handler.do_continue()
          else:
              raise ValueError("No data handler has been registered.")
      else:
          self.disconnect()
          self.handler.on_finish()
  \<close>
\<close>

definition Streamer_disconnect :: "streamer \<Rightarrow> world \<Rightarrow> streamer \<times> world" where
  "Streamer_disconnect s w = (s\<lparr>connected := False\<rparr>, emit Disconnect w)"

definition Streamer_on_success ::
  "(handler \<Rightarrow> bool) \<Rightarrow> message \<Rightarrow> streamer \<Rightarrow> world \<Rightarrow> error option \<times> streamer \<times> world" where
  "Streamer_on_success dflt data s w =
     (if streamer_do_continue s then
        (case streamer_handler s of
           Some h \<Rightarrow>
             (case data of
                Status t \<Rightarrow>
                  (case handler_handle t (h\<lparr>counter := counter h + 1\<rparr>) w of
                     (Some e, h1, w1) \<Rightarrow> (Some e, s\<lparr>streamer_handler := Some h1\<rparr>, w1)
                   | (None, h1, w1) \<Rightarrow>
                       (case handler_do_continue dflt h1 w1 of (b, h2, w2) \<Rightarrow>
                          (None, s\<lparr>streamer_handler := Some h2, streamer_do_continue := b\<rparr>, w2)))
              | Notice \<Rightarrow> (None, s, w))
         | None \<Rightarrow> (Some No_handler, s, w))
      else
        (case Streamer_disconnect s w of (s1, w1) \<Rightarrow>
           (case streamer_handler s1 of
              None \<Rightarrow> (Some AttributeError, s1, w1)
            | Some h \<Rightarrow>
                (case handler_on_finish h w1 of (e, h1, w2) \<Rightarrow>
                   (e, s1\<lparr>streamer_handler := Some h1\<rparr>, w2)))))"

text \<open>
  The transport is Twython's, outside this repository. One call of
  \<^verbatim>\<open>self.statuses.sample()\<close> or \<^verbatim>\<open>self.statuses.filter(...)\<close> is one connection: it
  passes each message that arrives to \<^verbatim>\<open>on_success\<close>, returns once \<^verbatim>\<open>disconnect()\<close>
  has been called, and otherwise goes on until the connection breaks
  (\<^verbatim>\<open>ChunkedEncodingError\<close>) or no message arrives any more (the call blocks). A
  connection is the list of messages that would arrive on it and how it ends.
\<close>

datatype ending = Breaks | Stalls

type_synonym connection = "message list \<times> ending"

fun deliver ::
  "(handler \<Rightarrow> bool) \<Rightarrow> message list \<Rightarrow> ending \<Rightarrow> streamer \<Rightarrow> world \<Rightarrow> outcome \<times> streamer \<times> world" where
  "deliver dflt [] Breaks s w = (Raised ChunkedEncodingError, s, w)"
| "deliver dflt [] Stalls s w = (Blocked, s, w)"
| "deliver dflt (m # ms) e s w =
     (case Streamer_on_success dflt m s w of
        (Some err, s1, w1) \<Rightarrow> (Raised err, s1, w1)
      | (None, s1, w1) \<Rightarrow>
          if connected s1 then deliver dflt ms e s1 w1 else (Returned, s1, w1))"

text \<open>
  \<^verbatim>\<open>
  def sample(self):
      while self.do_continue:
          try:
              self.statuses.sample()
          except requests.exceptions.ChunkedEncodingError as e:
              if e is not None:
                  print("Error (stream will continue): {0}".format(e))
              continue
  \<close>
  The connections the transport will open are given as a list; when it is used up
  and the loop asks for another one, the run is \<open>Blocked\<close>.
\<close>

fun Streamer_sample ::
  "(handler \<Rightarrow> bool) \<Rightarrow> connection list \<Rightarrow> streamer \<Rightarrow> world \<Rightarrow> outcome \<times> streamer \<times> world" where
  "Streamer_sample dflt [] s w =
     (if streamer_do_continue s then (Blocked, s, w) else (Returned, s, w))"
| "Streamer_sample dflt ((ms, e) # rest) s w =
     (if streamer_do_continue s then
        (case deliver dflt ms e (s\<lparr>connected := True\<rparr>) (emit Statuses_sample w) of
           (Raised ChunkedEncodingError, s1, w1) \<Rightarrow>
             Streamer_sample dflt rest s1 (emit (Print Stream_will_continue) w1)
         | (Raised err, s1, w1) \<Rightarrow> (Raised err, s1, w1)
         | (Returned, s1, w1) \<Rightarrow> Streamer_sample dflt rest s1 w1
         | (Blocked, s1, w1) \<Rightarrow> (Blocked, s1, w1))
      else (Returned, s, w))"

text \<open>
  \<^verbatim>\<open>
  def filter(self, track='', follow='', lang='en'):
      while self.do_continue:
          try:
              if track == '' and follow == '':
                  msg = "Please supply a value for 'track', 'follow'"
                  raise ValueError(msg)
              self.statuses.filter(track=track, follow=follow, lang=lang)
          except requests.exceptions.ChunkedEncodingError as e:
              if e is not None:
                  print("Error (stream will continue): {0}".format(e))
              continue
  \<close>
\<close>

fun Streamer_filter ::
  "(handler \<Rightarrow> bool) \<Rightarrow> string \<Rightarrow> string \<Rightarrow> string \<Rightarrow> connection list \<Rightarrow> streamer \<Rightarrow> world
     \<Rightarrow> outcome \<times> streamer \<times> world" where
  "Streamer_filter dflt track follow lang conns s w =
     (if streamer_do_continue s then
        (if track = [] \<and> follow = [] then (Raised No_track_follow, s, w)
         else
           (case conns of
              [] \<Rightarrow> (Blocked, s, w)
            | (ms, e) # rest \<Rightarrow>
                (case deliver dflt ms e (s\<lparr>connected := True\<rparr>)
                        (emit (Statuses_filter track follow lang) w) of
                   (Raised ChunkedEncodingError, s1, w1) \<Rightarrow>
                     Streamer_filter dflt track follow lang rest s1
                       (emit (Print Stream_will_continue) w1)
                 | (Raised err, s1, w1) \<Rightarrow> (Raised err, s1, w1)
                 | (Returned, s1, w1) \<Rightarrow> Streamer_filter dflt track follow lang rest s1 w1
                 | (Blocked, s1, w1) \<Rightarrow> (Blocked, s1, w1))))
      else (Returned, s, w))"

section \<open>The search engine\<close>




text \<open>
  What one call of \<^verbatim>\<open>self.search(...)\<close> does: it returns \<^verbatim>\<open>{'statuses': [...]}\<close>,
  or raises \<^verbatim>\<open>TwythonRateLimitError\<close>, or raises another \<^verbatim>\<open>TwythonError\<close>. A
  generator is run against the list of the responses its requests will get, in
  order; when the list is used up and another request is made, the run is
  \<open>Blocked\<close>.
\<close>

datatype response = Statuses "tweet list" | Rate_limited | Failed

text \<open>
  Modelled from the spec: \<^verbatim>\<open>BasicTweetHandler(limit=limit)\<close> of
  \<^verbatim>\<open>nltk/twitter/api.py\<close>, "a default handler capped at \<^verbatim>\<open>limit\<close>", its counter at 0.
\<close>

definition BasicTweetHandler_init :: "int \<Rightarrow> handler" where
  "BasicTweetHandler_init lim =
     \<lparr>cls = BasicTweetHandler, counter = 0, limit = lim, do_stop = False, date_limit = None,
      startingup = True, fprefix = [], subdir = [], gzip_compress = False, fname = [],
      stream = True, repeat = False, max_id = None, output_file = None\<rparr>"

text \<open>
  The body that follows both page requests of \<^verbatim>\<open>search_tweets\<close>:
  \<^verbatim>\<open>
  for result in results['statuses']:
      yield result
      self.handler.counter += 1
      if self.handler.do_continue() == False:
          return
  \<close>
  A generator runs interleaved with the loop that consumes it: at each \<^verbatim>\<open>yield\<close> the
  consumer's loop body runs, here \<open>consume\<close>, on the handler as the generator left it,
  and the generator goes on from what the consumer left. A consumer that raises
  ends the run.
\<close>

datatype progress = Exhausted | Stopped | Aborted error

type_synonym consumer = "tweet \<Rightarrow> handler \<Rightarrow> world \<Rightarrow> error option \<times> handler \<times> world"

fun yield_results ::
  "(handler \<Rightarrow> bool) \<Rightarrow> consumer \<Rightarrow> tweet list \<Rightarrow> handler \<Rightarrow> world \<Rightarrow> progress \<times> handler \<times> world" where
  "yield_results dflt consume [] h w = (Exhausted, h, w)"
| "yield_results dflt consume (result # results) h w =
     (case consume result h (emit (Yield result) w) of
        (Some e, h1, w1) \<Rightarrow> (Aborted e, h1, w1)
      | (None, h1, w1) \<Rightarrow>
          (case handler_do_continue dflt (h1\<lparr>counter := counter h1 + 1\<rparr>) w1 of (b, h2, w2) \<Rightarrow>
             if b = False then (Stopped, h2, w2)
             else yield_results dflt consume results h2 w2))"

text \<open>
  The page request of the pagination loop with its two \<^verbatim>\<open>except\<close> clauses, up to the
  point where the loop either starts over (\<^verbatim>\<open>continue\<close>), raises, or goes on to the
  statements after the \<^verbatim>\<open>try\<close> with the local variables \<^verbatim>\<open>retries\<close> and
  \<^verbatim>\<open>results\<close> as they then are. \<^verbatim>\<open>results\<close> is \<open>None\<close> while nothing was assigned to
  it.
  \<^verbatim>\<open>
  try:
      mcount = min(100, limit-count_from_query)
      results = self.search(q=keywords, count=mcount, lang=lang,
                            max_id=max_id, result_type='recent')
  except TwythonRateLimitError as e:
      print("Waiting for 15 minutes -{0}".format(e))
      time.sleep(15*60) # wait 15 minutes
      continue
  except TwythonError as e:
      print("Fatal error in Twython request -{0}".format(e))
      if retries_after_twython_exception == retries:
          raise e
      retries += 1
  \<close>
\<close>

datatype attempt = Continue world | Raise error world | Proceed int "tweet list option" world

definition request_page ::
  "int \<Rightarrow> response \<Rightarrow> int \<Rightarrow> tweet list option \<Rightarrow> world \<Rightarrow> attempt" where
  "request_page retries_after_twython_exception resp retries results w =
     (case resp of
        Statuses page \<Rightarrow> Proceed retries (Some page) w
      | Rate_limited \<Rightarrow> Continue (emit (Sleep (15 * 60)) (emit (Print Waiting_15_minutes) w))
      | Failed \<Rightarrow>
          (let w1 = emit (Print Fatal_error) w in
           if retries_after_twython_exception = retries then Raise TwythonError w1
           else Proceed (retries + 1) results w1))"

text \<open>
  \<^verbatim>\<open>
  while count_from_query < limit:
      try: ... (above)

      count = len(results['statuses'])
      if count == 0:
          print("No more Tweets available through rest api")
          return
      count_from_query += count
      max_id = results['statuses'][count - 1]['id'] - 1
      self.handler.max_id = max_id

      for result in results['statuses']: ... (above)
  \<close>
\<close>

fun pagination ::
  "(handler \<Rightarrow> bool) \<Rightarrow> consumer \<Rightarrow> string \<Rightarrow> int \<Rightarrow> string \<Rightarrow> int \<Rightarrow> response list
     \<Rightarrow> int \<Rightarrow> int \<Rightarrow> int \<Rightarrow> tweet list option \<Rightarrow> handler \<Rightarrow> world \<Rightarrow> outcome \<times> handler \<times> world" where
  "pagination dflt consume keywords lim lang n script count_from_query mx retries results h w =
     (if count_from_query < lim then
        (case script of
           [] \<Rightarrow> (Blocked, h, w)
         | resp # rest \<Rightarrow>
             (case request_page n resp retries results
                     (emit (Search keywords (min 100 (lim - count_from_query)) lang (Some mx)) w) of
                Continue w1 \<Rightarrow>
                  pagination dflt consume keywords lim lang n rest count_from_query mx retries results h w1
              | Raise e w1 \<Rightarrow> (Raised e, h, w1)
              | Proceed retries1 results1 w1 \<Rightarrow>
                  (case results1 of
                     None \<Rightarrow> (Raised UnboundLocalError, h, w1)
                   | Some page \<Rightarrow>
                       if length page = 0 then (Returned, h, emit (Print No_more_tweets) w1)
                       else
                         (let mx1 = tweet_id (last page) - 1 in
                          case yield_results dflt consume page (h\<lparr>max_id := Some mx1\<rparr>) w1 of
                            (Exhausted, h2, w2) \<Rightarrow>
                              pagination dflt consume keywords lim lang n rest
                                (count_from_query + int (length page)) mx1 retries1 (Some page) h2 w2
                          | (Stopped, h2, w2) \<Rightarrow> (Returned, h2, w2)
                          | (Aborted e, h2, w2) \<Rightarrow> (Raised e, h2, w2)))))
      else (Returned, h, w))"

text \<open>
  \<^verbatim>\<open>
  def search_tweets(self, keywords, limit=100, lang='en', max_id=None,
                    retries_after_twython_exception=0):
      if not self.handler:
          self.handler = BasicTweetHandler(limit=limit)

      count_from_query = 0
      if not max_id:
          results = self.search(q=keywords, count=min(100, limit), lang=lang,
                                result_type='recent')
          count = len(results['statuses'])
          if count == 0:
              print("No Tweets available through rest api for those keywords")
              return
          count_from_query = count
          max_id = results['statuses'][count - 1]['id'] - 1

          for result in results['statuses']: ... (above)

      retries = 0
      while count_from_query < limit: ... (above)
  \<close>
  \<^verbatim>\<open>not max_id\<close> holds of \<^verbatim>\<open>None\<close> and of 0. The first request is outside any
  \<^verbatim>\<open>try\<close>. After the first block \<^verbatim>\<open>max_id\<close> is an integer.
\<close>

definition falsy :: "int option \<Rightarrow> bool" where
  "falsy mx = (case mx of None \<Rightarrow> True | Some m \<Rightarrow> m = 0)"

definition search_tweets_body ::
  "(handler \<Rightarrow> bool) \<Rightarrow> consumer \<Rightarrow> string \<Rightarrow> int \<Rightarrow> string \<Rightarrow> int option \<Rightarrow> int \<Rightarrow> response list
     \<Rightarrow> handler \<Rightarrow> world \<Rightarrow> outcome \<times> handler \<times> world" where
  "search_tweets_body dflt consume keywords lim lang mx n script h w =
     (if falsy mx then
        (case script of
           [] \<Rightarrow> (Blocked, h, w)
         | resp # rest \<Rightarrow>
             (let w1 = emit (Search keywords (min 100 lim) lang None) w in
              case resp of
                Rate_limited \<Rightarrow> (Raised TwythonRateLimitError, h, w1)
              | Failed \<Rightarrow> (Raised TwythonError, h, w1)
              | Statuses page \<Rightarrow>
                  if length page = 0 then (Returned, h, emit (Print No_tweets_available) w1)
                  else
                    (case yield_results dflt consume page h w1 of
                       (Exhausted, h2, w2) \<Rightarrow>
                         pagination dflt consume keywords lim lang n rest
                           (int (length page)) (tweet_id (last page) - 1) 0 (Some page) h2 w2
                     | (Stopped, h2, w2) \<Rightarrow> (Returned, h2, w2)
                     | (Aborted e, h2, w2) \<Rightarrow> (Raised e, h2, w2))))
      else pagination dflt consume keywords lim lang n script 0 (the mx) 0 None h w)"


text \<open>
  \<^verbatim>\<open>
  def _search_tweets(self, keywords, limit=100, lang='en'):
      while True:
          if isinstance(self.handler, TweetWriter):
              max_id = self.handler.max_id
          else:
              max_id = None
          tweets = self.search_tweets(keywords=keywords, limit=limit, lang=lang,
                                      max_id=max_id)
          for tweet in tweets:
              self.handler.handle(tweet)
          if not (self.handler.do_continue() and self.handler.repeat):
              break
      self.handler.on_finish()
  \<close>
  The method is \<open>Query_search_tweets_dispatch\<close> here, \<^verbatim>\<open>search_tweets\<close> being taken.
  Each call of the generator gets its own list of responses.
\<close>





section \<open>Constructors\<close>

text \<open>An object of a handler class on which no attribute has been set yet.\<close>

definition blank :: "handler_class \<Rightarrow> handler" where
  "blank c =
     \<lparr>cls = c, counter = 0, limit = 0, do_stop = False, date_limit = None, startingup = False,
      fprefix = [], subdir = [], gzip_compress = False, fname = [], stream = False,
      repeat = False, max_id = None, output_file = None\<rparr>"

text \<open>
  Modelled from the spec: \<^verbatim>\<open>TweetHandlerI.__init__(self, limit, date_limit)\<close> of
  \<^verbatim>\<open>nltk/twitter/api.py\<close>. It stores the limit and the date boundary; the counter
  ("records processed since last reset") starts at 0, \<open>do_stop\<close> ("set by
  handler-specific logic") starts false and \<open>startingup\<close> ("no output target opened
  yet") starts true.
\<close>

definition TweetHandlerI_init :: "int \<Rightarrow> int option \<Rightarrow> handler \<Rightarrow> handler" where
  "TweetHandlerI_init lim dl h =
     h\<lparr>limit := lim, date_limit := dl, counter := 0, do_stop := False, startingup := True\<rparr>"

text \<open>
  \<^verbatim>\<open>
  def __init__(self, limit=2000, date_limit=None, stream=True,
               fprefix='tweets', subdir='twitter-files', repeat=False,
               gzip_compress=False):
      self.fprefix = fprefix
      self.subdir = guess_path(subdir)
      self.gzip_compress = gzip_compress
      self.fname = self.timestamped_file()
      self.stream = stream
      self.repeat = repeat
      # max_id stores the id of the older tweet fetched
      self.max_id = None
      self.output = None
      TweetHandlerI.__init__(self, limit, date_limit)
  \<close>
  \<open>sub\<close> is the path \<^verbatim>\<open>guess_path(subdir)\<close> returns. \<^verbatim>\<open>TweetViewer\<close> has no \<^verbatim>\<open>__init__\<close>
  of its own.
\<close>

definition TweetWriter_init ::
  "int \<Rightarrow> int option \<Rightarrow> bool \<Rightarrow> string \<Rightarrow> string \<Rightarrow> bool \<Rightarrow> bool \<Rightarrow> world \<Rightarrow> handler \<times> world" where
  "TweetWriter_init lim dl strm fpre sub rep gz w =
     (let h = (blank TweetWriter)\<lparr>fprefix := fpre, subdir := sub, gzip_compress := gz\<rparr> in
      case timestamped_file h w of (name, w1) \<Rightarrow>
        (TweetHandlerI_init lim dl
           (h\<lparr>fname := name, stream := strm, repeat := rep, max_id := None, output_file := None\<rparr>),
         w1))"

definition TweetViewer_init :: "int \<Rightarrow> int option \<Rightarrow> handler" where
  "TweetViewer_init lim dl = TweetHandlerI_init lim dl (blank TweetViewer)"

section \<open>What can be read off a handler, a streamer or a trace\<close>

text \<open>
  A TweetWriter can take a record when it is about to open a file or has one open.
  Counts over a world's trace: files closed, lines written, \<^verbatim>\<open>on_finish\<close> summaries
  printed and connections torn down.
\<close>

definition can_write :: "handler \<Rightarrow> bool" where
  "can_write h =
     (startingup h \<or> (case output_file h of None \<Rightarrow> False | Some f \<Rightarrow> \<not> is_closed f))"

fun is_close_file :: "event \<Rightarrow> bool" where
  "is_close_file (Close_file p) = True"
| "is_close_file e = False"

fun is_write_line :: "event \<Rightarrow> bool" where
  "is_write_line (Write_line p t) = True"
| "is_write_line e = False"

fun is_written :: "event \<Rightarrow> bool" where
  "is_written (Print (Written n)) = True"
| "is_written e = False"

definition closes :: "world \<Rightarrow> nat" where
  "closes w = length (filter is_close_file (trace w))"

definition writes :: "world \<Rightarrow> nat" where
  "writes w = length (filter is_write_line (trace w))"

definition finishes :: "world \<Rightarrow> nat" where
  "finishes w = length (filter is_written (trace w))"

definition disconnects :: "world \<Rightarrow> nat" where
  "disconnects w = length (filter (\<lambda>e. e = Disconnect) (trace w))"

text \<open>How many Tweet texts a world's trace shows as printed by \<^verbatim>\<open>TweetViewer.handle\<close>.\<close>

fun is_tweet_text :: "event \<Rightarrow> bool" where
  "is_tweet_text (Print (Tweet_text x)) = True"
| "is_tweet_text e = False"

definition displayed :: "world \<Rightarrow> nat" where
  "displayed w = length (filter is_tweet_text (trace w))"

text \<open>
  The Tweets a trace shows as yielded, in order; the requests of the search engine it
  holds, and their number.
\<close>

fun yielded :: "event list \<Rightarrow> tweet list" where
  "yielded [] = []"
| "yielded (Yield t # es) = t # yielded es"
| "yielded (e # es) = yielded es"

fun is_search :: "event \<Rightarrow> bool" where
  "is_search (Search q c l m) = True"
| "is_search e = False"

definition requests :: "world \<Rightarrow> event list" where
  "requests w = filter is_search (trace w)"

definition searches :: "world \<Rightarrow> nat" where
  "searches w = length (requests w)"

text \<open>
  Between two worlds, as many \<^verbatim>\<open>on_finish\<close> summaries were printed as files were
  rotated (each rotation reads the clock once).
\<close>

definition balanced :: "world \<Rightarrow> world \<Rightarrow> bool" where
  "balanced w w' = (finishes w' + reads w = finishes w + reads w')"

text \<open>A TweetWriter in repeat mode, without a date boundary, not stopped, able to write.\<close>

definition rotating :: "handler \<Rightarrow> bool" where
  "rotating h =
     (cls h = TweetWriter \<and> repeat h \<and> date_limit h = None \<and> \<not> do_stop h \<and> can_write h)"


text \<open>
  How many more Tweets a TweetViewer with counter \<open>c\<close> and limit \<open>L\<close> displays before
  the default policy \<^verbatim>\<open>counter < limit\<close> answers false, the counter going up by 2 a
  Tweet: at least one, since the policy is asked after the Tweet is handled.
\<close>

definition need :: "int \<Rightarrow> int \<Rightarrow> nat" where
  "need c L = max 1 (nat ((L - c + 1) div 2))"



section \<open>Sample data and sample runs\<close>

text \<open>
  Sample data: a world with an empty trace whose clock shows \<open>''t''\<close>, \<open>''tt''\<close>, ... at
  successive reads; a Tweet with a given id and date; a TweetWriter with the default
  prefix and directory and no compression.
\<close>

definition world0 :: world where
  "world0 = \<lparr>trace = [], clock = (\<lambda>i. replicate (Suc i) CHR ''t''), reads = 0, dirs = []\<rparr>"

definition tw :: "int \<Rightarrow> int \<Rightarrow> tweet" where
  "tw i d = \<lparr>tweet_id = i, tweet_text = ''hello'', created_at = d\<rparr>"

definition writer :: "int \<Rightarrow> int option \<Rightarrow> bool \<Rightarrow> bool \<Rightarrow> handler" where
  "writer lim dl strm rep =
     fst (TweetWriter_init lim dl strm ''tweets'' ''twitter-files'' rep False world0)"

definition world1 :: world where
  "world1 = snd (TweetWriter_init 0 None True ''tweets'' ''twitter-files'' False False world0)"

text \<open>A caller of \<^verbatim>\<open>search_tweets\<close> that only iterates over the generator.\<close>

definition no_consumer :: consumer where
  "no_consumer result h w = (None, h, w)"

text \<open>
  A streamer at the end of a session: a TweetWriter in repeat mode with the date
  boundary 100 was registered on a new streamer, \<^verbatim>\<open>sample()\<close> was called, the Tweet of
  date 200 arrived and then one more message.
\<close>

definition finished_session :: "outcome \<times> streamer \<times> world" where
  "finished_session =
     Streamer_sample default_do_continue [([Status (tw 1 200), Notice], Stalls)]
       (Streamer_register (writer 5 (Some 100) True True) Streamer_init) world1"



text \<open>
  Three calls of \<^verbatim>\<open>search_tweets\<close> by a caller that only iterates, no handler
  registered. The first and the second have no \<^verbatim>\<open>max_id\<close>, get a first page holding
  the Tweet 10, and their next request fails with a \<^verbatim>\<open>TwythonError\<close>, one retry being
  allowed; the limits are 5 and 2. The third has \<^verbatim>\<open>max_id=50\<close>, and its first request
  fails.
\<close>

definition failure_after_first_page :: "outcome \<times> handler \<times> world" where
  "failure_after_first_page =
     search_tweets_body default_do_continue no_consumer ''nltk'' 5 ''en'' None 1
       [Statuses [tw 10 1], Failed, Statuses []] (BasicTweetHandler_init 5) world0"

definition failure_fills_limit :: "outcome \<times> handler \<times> world" where
  "failure_fills_limit =
     search_tweets_body default_do_continue no_consumer ''nltk'' 2 ''en'' None 1
       [Statuses [tw 10 1], Failed, Statuses [tw 9 1]] (BasicTweetHandler_init 2) world0"

definition failure_with_cursor :: "outcome \<times> handler \<times> world" where
  "failure_with_cursor =
     search_tweets_body default_do_continue no_consumer ''nltk'' 5 ''en'' (Some 50) 1
       [Failed, Statuses [tw 40 1]] (BasicTweetHandler_init 5) world0"

text \<open>
  Two more calls by a caller that only iterates. One is given \<^verbatim>\<open>max_id=100\<close> and a
  limit of 2, and its page lists the Tweet 5 before the Tweet 7. The other has no
  \<^verbatim>\<open>max_id\<close> and a limit of 1, and its first page holds the Tweet 9.
\<close>

definition unsorted_page :: "outcome \<times> handler \<times> world" where
  "unsorted_page =
     search_tweets_body default_do_continue no_consumer ''nltk'' 2 ''en'' (Some 100) 0
       [Statuses [tw 5 1, tw 7 1]] (BasicTweetHandler_init 2) world0"

definition first_page_only :: "outcome \<times> handler \<times> world" where
  "first_page_only =
     search_tweets_body default_do_continue no_consumer ''nltk'' 1 ''en'' None 0
       [Statuses [tw 9 1]] (BasicTweetHandler_init 1) world0"


section \<open>Properties of the handlers\<close>

lemma open_output_fields:
  "do_stop (fst (open_output h w)) = do_stop h"
  "counter (fst (open_output h w)) = counter h"
  "date_limit (fst (open_output h w)) = date_limit h"
  "stream (fst (open_output h w)) = stream h"
  "repeat (fst (open_output h w)) = repeat h"
  "startingup (fst (open_output h w)) = startingup h"
  "limit (fst (open_output h w)) = limit h"
  "max_id (fst (open_output h w)) = max_id h"
  "cls (fst (open_output h w)) = cls h"
  by (simp_all add: open_output_def)







lemma writer_simps:
  "writer lim dl strm rep =
     \<lparr>cls = TweetWriter, counter = 0, limit = lim, do_stop = False, date_limit = dl,
      startingup = True, fprefix = ''tweets'', subdir = ''twitter-files'',
      gzip_compress = False, fname = ''twitter-files/tweets.t.json'',
      stream = strm, repeat = rep, max_id = None, output_file = None\<rparr>"
  by (simp add: writer_def TweetWriter_init_def TweetHandlerI_init_def blank_def
        timestamped_file_def world0_def now_def os_path_join_def emit_def Let_def)

lemma world1_simps:
  "world1 = \<lparr>trace = [Mkdir ''twitter-files''], clock = (\<lambda>i. replicate (Suc i) CHR ''t''),
             reads = 1, dirs = [''twitter-files'']\<rparr>"
  by (simp add: world1_def TweetWriter_init_def TweetHandlerI_init_def blank_def
        timestamped_file_def world0_def now_def os_path_join_def emit_def Let_def)


section \<open>Properties of the streaming engine\<close>


lemma handler_handle_error:
  "handler_handle t h w = (Some e, h1, w1) \<Longrightarrow> e = AttributeError \<or> e = Closed_file"
  by (auto simp: handler_handle_def TweetWriter_handle_def TweetViewer_handle_def Let_def
      split: handler_class.splits prod.splits option.splits if_splits)

lemma handler_on_finish_error:
  "handler_on_finish h w = (Some e, h1, w1) \<Longrightarrow> e = AttributeError"
  by (auto simp: handler_on_finish_def split: handler_class.splits prod.splits)

lemma Streamer_on_success_error:
  "Streamer_on_success dflt m s w = (Some e, s1, w1) \<Longrightarrow>
     e = AttributeError \<or> e = Closed_file \<or> e = No_handler"
  by (auto simp: Streamer_on_success_def Streamer_disconnect_def
      split: if_splits option.splits message.splits prod.splits
      dest: handler_handle_error handler_on_finish_error)

lemma deliver_error:
  "deliver dflt ms e s w = (Raised err, s1, w1) \<Longrightarrow>
     err = AttributeError \<or> err = Closed_file \<or> err = No_handler \<or> err = ChunkedEncodingError"
proof (induction ms arbitrary: s w)
  case Nil
  then show ?case by (cases e) auto
next
  case (Cons m ms)
  obtain r s2 w2 where step: "Streamer_on_success dflt m s w = (r, s2, w2)"
    by (metis prod_cases3)
  show ?case
  proof (cases r)
    case None
    with step Cons show ?thesis by (auto split: if_splits)
  next
    case (Some a)
    with step Cons.prems show ?thesis
      by (auto dest: Streamer_on_success_error)
  qed
qed

lemma Streamer_filter_no_value_error:
  "track \<noteq> [] \<or> follow \<noteq> [] \<Longrightarrow>
   fst (Streamer_filter dflt track follow lang conns s w) \<noteq> Raised No_track_follow"
proof (induction conns arbitrary: s w)
  case Nil
  then show ?case by auto
next
  case (Cons c conns)
  obtain ms e where c: "c = (ms, e)" by (cases c)
  obtain r s1 w1 where d: "deliver dflt ms e (s\<lparr>connected := True\<rparr>)
                        (emit (Statuses_filter track follow lang) w) = (r, s1, w1)"
    by (metis prod_cases3)
  show ?case
  proof (cases r)
    case Returned
    with c d Cons show ?thesis by auto
  next
    case (Raised err)
    with d have "err \<noteq> No_track_follow" by (auto dest: deliver_error)
    with c d Cons Raised show ?thesis
      by (cases err) auto
  next
    case Blocked
    with c d Cons show ?thesis by auto
  qed
qed

text \<open>
  C8 (as amended). While the streamer's \<open>do_continue\<close> flag is true, as it is on a new
  streamer, a call of \<^verbatim>\<open>filter\<close> with both \<open>track\<close> and \<open>follow\<close> empty raises the
  \<^verbatim>\<open>ValueError\<close> at once: the streamer and the world, whose trace holds every request,
  are as before the call. With \<open>track\<close> or \<open>follow\<close> non-empty this error is never
  raised, whatever the connections deliver.
\<close>

theorem filter_requires_track_or_follow:
  "(streamer_do_continue s \<and> track = [] \<and> follow = [] \<longrightarrow>
      Streamer_filter dflt track follow lang conns s w = (Raised No_track_follow, s, w))
   \<and> (track \<noteq> [] \<or> follow \<noteq> [] \<longrightarrow>
      fst (Streamer_filter dflt track follow lang conns s w) \<noteq> Raised No_track_follow)"
  using Streamer_filter_no_value_error [of track follow dflt lang conns s w]
  by simp



lemmas handler_defs =
  handler_handle_def handler_do_continue_def handler_on_finish_def
  TweetViewer_handle_def TweetViewer_on_finish_def
  TweetWriter_handle_def TweetWriter_on_finish_def TweetWriter_do_continue_def
  restart_file_def timestamped_file_def open_output_def crosses_date_limit_def
  os_path_join_def emit_def now_def default_do_continue_def

lemmas streamer_defs =
  Streamer_on_success_def Streamer_disconnect_def Streamer_register_def Streamer_init_def

lemma finished_session_simps:
  "fst finished_session = Returned"
  "streamer_do_continue (fst (snd finished_session)) = False"
  by (simp_all add: finished_session_def handler_defs streamer_defs writer_simps world1_simps tw_def Let_def)

text \<open>
  C8 as stated fails on a streamer whose session is over: its flag is false, the loop
  of \<^verbatim>\<open>filter\<close> is not entered, and the call returns without raising.
\<close>

theorem filter_after_session_counterexample:
  "streamer_do_continue (fst (snd finished_session)) = False
   \<and> Streamer_filter default_do_continue [] [] ''en'' [([Status (tw 2 300)], Stalls)]
        (fst (snd finished_session)) (snd (snd finished_session))
      = (Returned, fst (snd finished_session), snd (snd finished_session))"
  by (simp add: finished_session_simps)

theorem filter_requires_track_or_follow_witness:
  "streamer_do_continue Streamer_init
   \<and> Streamer_filter default_do_continue [] [] ''en'' [([Status (tw 2 300)], Stalls)] Streamer_init world0
      = (Raised No_track_follow, Streamer_init, world0)
   \<and> fst (Streamer_filter default_do_continue ''nltk'' [] ''en'' [([Status (tw 2 300)], Stalls)]
        Streamer_init world0) \<noteq> Raised No_track_follow"
  using filter_requires_track_or_follow [of Streamer_init "[]" "[]" default_do_continue "''en''"
           "[([Status (tw 2 300)], Stalls)]" world0]
        filter_requires_track_or_follow [of Streamer_init "''nltk''" "[]" default_do_continue "''en''"
           "[([Status (tw 2 300)], Stalls)]" world0]
  by (simp add: Streamer_init_def)


section \<open>The counter of a TweetViewer\<close>


lemma displayed_emit [simp]:
  "displayed (emit e w) = displayed w + (if is_tweet_text e then 1 else 0)"
  by (simp add: displayed_def emit_def)

lemma viewer_on_success:
  assumes "cls h = TweetViewer" "streamer_handler s = Some h" "streamer_do_continue s"
  shows "Streamer_on_success dflt (Status t) s w =
           (None, s\<lparr>streamer_handler := Some (h\<lparr>counter := counter h + 2\<rparr>),
                    streamer_do_continue := dflt (h\<lparr>counter := counter h + 2\<rparr>)\<rparr>,
            emit (Print (Tweet_text (tweet_text t))) w)"
  using assms
  by (simp add: Streamer_on_success_def handler_handle_def TweetViewer_handle_def
        handler_do_continue_def add.commute)

lemma viewer_on_success_stopped:
  assumes "cls h = TweetViewer" "streamer_handler s = Some h" "\<not> streamer_do_continue s"
  shows "Streamer_on_success dflt m s w =
           (None, s\<lparr>connected := False, streamer_handler := Some h\<rparr>,
            emit (Print (Written (counter h))) (emit Disconnect w))"
  using assms
  by (simp add: Streamer_on_success_def handler_on_finish_def TweetViewer_on_finish_def
        Streamer_disconnect_def)

lemma deliver_viewer_stopped:
  assumes "cls h = TweetViewer" "streamer_handler s = Some h" "\<not> streamer_do_continue s"
  shows "streamer_handler (fst (snd (deliver dflt ms e s w))) = Some h
       \<and> displayed (snd (snd (deliver dflt ms e s w))) = displayed w"
proof (cases ms)
  case Nil
  then show ?thesis using assms by (cases e) simp_all
next
  case (Cons m ms')
  then show ?thesis using assms by (simp add: viewer_on_success_stopped)
qed


lemma need_step:
  assumes "c + 2 < L"
  shows "need c L = Suc (need (c + 2) L)"
proof -
  have a: "(L - c + 1) div 2 = (L - (c + 2) + 1) div 2 + 1" by presburger
  have b: "1 \<le> (L - (c + 2) + 1) div 2" using assms by presburger
  show ?thesis
    unfolding need_def a using b by (simp add: max_def nat_add_distrib)
qed

lemma need_one:
  assumes "\<not> c + 2 < L"
  shows "need c L = 1"
proof -
  have "(L - c + 1) div 2 \<le> 1" using assms by presburger
  then show ?thesis unfolding need_def by (simp add: max_def, arith)
qed

lemma deliver_viewer:
  assumes "cls h = TweetViewer" "streamer_handler s = Some h" "streamer_do_continue s" "connected s"
  shows "\<exists>h'. streamer_handler (fst (snd (deliver default_do_continue (map Status ts) e s w))) = Some h'
        \<and> counter h' = counter h + 2 * int (min (length ts) (need (counter h) (limit h)))
        \<and> displayed (snd (snd (deliver default_do_continue (map Status ts) e s w)))
            = displayed w + min (length ts) (need (counter h) (limit h))"
  using assms
proof (induction ts arbitrary: h s w)
  case Nil
  then show ?case by (cases e) simp_all
next
  case (Cons t ts)
  let ?h1 = "h\<lparr>counter := counter h + 2\<rparr>"
  let ?s1 = "s\<lparr>streamer_handler := Some ?h1, streamer_do_continue := default_do_continue ?h1\<rparr>"
  let ?w1 = "emit (Print (Tweet_text (tweet_text t))) w"
  have step: "deliver default_do_continue (Status t # map Status ts) e s w
              = deliver default_do_continue (map Status ts) e ?s1 ?w1"
    using Cons.prems by (simp add: viewer_on_success)
  show ?case
  proof (cases "counter h + 2 < limit h")
    case True
    then have go: "streamer_do_continue ?s1" by (simp add: default_do_continue_def)
    from Cons.IH [of ?h1 ?s1 ?w1] Cons.prems go
    obtain h' where
      "streamer_handler (fst (snd (deliver default_do_continue (map Status ts) e ?s1 ?w1))) = Some h'"
      "counter h' = counter ?h1 + 2 * int (min (length ts) (need (counter ?h1) (limit ?h1)))"
      "displayed (snd (snd (deliver default_do_continue (map Status ts) e ?s1 ?w1)))
         = displayed ?w1 + min (length ts) (need (counter ?h1) (limit ?h1))"
      by auto
    then show ?thesis
      using True unfolding list.map step by (simp add: need_step del: deliver.simps)
  next
    case False
    then have stop: "\<not> streamer_do_continue ?s1" by (simp add: default_do_continue_def)
    have "cls ?h1 = TweetViewer" "streamer_handler ?s1 = Some ?h1"
      using Cons.prems by simp_all
    from deliver_viewer_stopped [OF this stop, of default_do_continue "map Status ts" e ?w1]
    show ?thesis
      using False unfolding list.map step by (simp add: need_one del: deliver.simps)
  qed
qed


lemma viewer_yield:
  assumes "cls h = TweetViewer"
  shows "yield_results dflt handler_handle (t # ts) h w =
           (if dflt (h\<lparr>counter := counter h + 2\<rparr>) = False
            then (Stopped, h\<lparr>counter := counter h + 2\<rparr>,
                  emit (Print (Tweet_text (tweet_text t))) (emit (Yield t) w))
            else yield_results dflt handler_handle ts (h\<lparr>counter := counter h + 2\<rparr>)
                   (emit (Print (Tweet_text (tweet_text t))) (emit (Yield t) w)))"
  using assms
  by (simp add: handler_handle_def TweetViewer_handle_def handler_do_continue_def add.commute)

lemma yield_results_viewer:
  assumes "cls h = TweetViewer"
  shows "counter (fst (snd (yield_results default_do_continue handler_handle ts h w)))
           = counter h + 2 * int (min (length ts) (need (counter h) (limit h)))
       \<and> displayed (snd (snd (yield_results default_do_continue handler_handle ts h w)))
           = displayed w + min (length ts) (need (counter h) (limit h))"
  using assms
proof (induction ts arbitrary: h w)
  case Nil
  then show ?case by simp
next
  case (Cons t ts)
  let ?h1 = "h\<lparr>counter := counter h + 2\<rparr>"
  let ?w1 = "emit (Print (Tweet_text (tweet_text t))) (emit (Yield t) w)"
  have cls1: "cls ?h1 = TweetViewer" using Cons.prems by simp
  show ?case
  proof (cases "counter h + 2 < limit h")
    case True
    then have "yield_results default_do_continue handler_handle (t # ts) h w
               = yield_results default_do_continue handler_handle ts ?h1 ?w1"
      using Cons.prems by (simp add: viewer_yield default_do_continue_def del: yield_results.simps)
    then show ?thesis
      using Cons.IH [OF cls1, of ?w1] True by (simp add: need_step del: yield_results.simps)
  next
    case False
    then have "yield_results default_do_continue handler_handle (t # ts) h w = (Stopped, ?h1, ?w1)"
      using Cons.prems by (simp add: viewer_yield default_do_continue_def del: yield_results.simps)
    then show ?thesis
      using False by (simp add: need_one del: yield_results.simps)
  qed
qed

lemma need_0: "need 0 L = max 1 (nat ((L + 1) div 2))"
  by (simp add: need_def)

lemma TweetWriter_handle_counter:
  "counter (fst (snd (TweetWriter_handle data h w))) = counter h"
  by (simp add: TweetWriter_handle_def open_output_def Let_def split: option.splits)

text \<open>
  C9. With a TweetViewer registered, each record adds 2 to the counter: 1 in
  \<^verbatim>\<open>TweetViewer.handle\<close> and 1 in the engine, \<^verbatim>\<open>Streamer.on_success\<close> or the search
  generator, whatever the inherited continuation policy is. From a counter of 0 and
  with the default policy \<^verbatim>\<open>counter < limit\<close>, of \<open>n\<close> records offered on one
  connection or in one page only the first \<open>min n (max 1 \<lceil>limit / 2\<rceil>)\<close> are displayed, and
  the counter ends at twice that number. \<^verbatim>\<open>TweetWriter.handle\<close> leaves the counter as
  it is.
\<close>

theorem TweetViewer_counts_twice:
  assumes "cls h = TweetViewer"
  shows "counter (fst (TweetViewer_handle t h w)) = counter h + 1
    \<and> (streamer_handler s = Some h \<and> streamer_do_continue s \<longrightarrow>
         (\<exists>h'. streamer_handler (fst (snd (Streamer_on_success dflt (Status t) s w))) = Some h'
               \<and> counter h' = counter h + 2))
    \<and> counter (fst (snd (yield_results dflt handler_handle [t] h w))) = counter h + 2
    \<and> (streamer_handler s = Some h \<and> streamer_do_continue s \<and> connected s \<and> counter h = 0 \<longrightarrow>
         (\<exists>h'. streamer_handler (fst (snd (deliver default_do_continue (map Status ts) e s w))) = Some h'
               \<and> counter h' = 2 * int (min (length ts) (max 1 (nat ((limit h + 1) div 2))))
               \<and> displayed (snd (snd (deliver default_do_continue (map Status ts) e s w)))
                   = displayed w + min (length ts) (max 1 (nat ((limit h + 1) div 2)))))
    \<and> (counter h = 0 \<longrightarrow>
         counter (fst (snd (yield_results default_do_continue handler_handle ts h w)))
           = 2 * int (min (length ts) (max 1 (nat ((limit h + 1) div 2))))
         \<and> displayed (snd (snd (yield_results default_do_continue handler_handle ts h w)))
             = displayed w + min (length ts) (max 1 (nat ((limit h + 1) div 2))))
    \<and> counter (fst (snd (TweetWriter_handle t g w))) = counter g"
proof -
  have a: "counter (fst (TweetViewer_handle t h w)) = counter h + 1"
    by (simp add: TweetViewer_handle_def)
  have b: "streamer_handler s = Some h \<and> streamer_do_continue s \<longrightarrow>
         (\<exists>h'. streamer_handler (fst (snd (Streamer_on_success dflt (Status t) s w))) = Some h'
               \<and> counter h' = counter h + 2)"
    using assms by (simp add: viewer_on_success)
  have c: "counter (fst (snd (yield_results dflt handler_handle [t] h w))) = counter h + 2"
    using assms by (simp add: viewer_yield del: yield_results.simps(2))
  have d: "streamer_handler s = Some h \<and> streamer_do_continue s \<and> connected s \<and> counter h = 0 \<longrightarrow>
         (\<exists>h'. streamer_handler (fst (snd (deliver default_do_continue (map Status ts) e s w))) = Some h'
               \<and> counter h' = 2 * int (min (length ts) (max 1 (nat ((limit h + 1) div 2))))
               \<and> displayed (snd (snd (deliver default_do_continue (map Status ts) e s w)))
                   = displayed w + min (length ts) (max 1 (nat ((limit h + 1) div 2))))"
    using deliver_viewer [OF assms, of s ts e w] by (auto simp: need_0)
  have e: "counter h = 0 \<longrightarrow>
         counter (fst (snd (yield_results default_do_continue handler_handle ts h w)))
           = 2 * int (min (length ts) (max 1 (nat ((limit h + 1) div 2))))
         \<and> displayed (snd (snd (yield_results default_do_continue handler_handle ts h w)))
             = displayed w + min (length ts) (max 1 (nat ((limit h + 1) div 2)))"
    using yield_results_viewer [OF assms, of ts w] by (auto simp: need_0)
  show ?thesis
    using a b c d e TweetWriter_handle_counter by blast
qed

lemma TweetViewer_init_simps:
  "cls (TweetViewer_init lim dl) = TweetViewer"
  "counter (TweetViewer_init lim dl) = 0"
  "limit (TweetViewer_init lim dl) = lim"
  by (simp_all add: TweetViewer_init_def TweetHandlerI_init_def blank_def)

lemma displayed_world0: "displayed world0 = 0"
  by (simp add: displayed_def world0_def)

theorem TweetViewer_counts_twice_witness:
  "cls (TweetViewer_init 5 None) = TweetViewer
   \<and> counter (fst (snd (yield_results default_do_continue handler_handle
         [tw 9 1, tw 8 1, tw 7 1, tw 6 1, tw 5 1] (TweetViewer_init 5 None) world0))) = 6
   \<and> displayed (snd (snd (yield_results default_do_continue handler_handle
         [tw 9 1, tw 8 1, tw 7 1, tw 6 1, tw 5 1] (TweetViewer_init 5 None) world0))) = 3
   \<and> (\<exists>h'. streamer_handler (fst (snd (deliver default_do_continue
               (map Status [tw 9 1, tw 8 1, tw 7 1, tw 6 1, tw 5 1]) Stalls
               \<lparr>streamer_handler = Some (TweetViewer_init 5 None), streamer_do_continue = True,
                 connected = True\<rparr> world0))) = Some h' \<and> counter h' = 6)"
  using TweetViewer_counts_twice [of "TweetViewer_init 5 None" "tw 9 1" world0
          "\<lparr>streamer_handler = Some (TweetViewer_init 5 None), streamer_do_continue = True,
            connected = True\<rparr>" default_do_continue
          "[tw 9 1, tw 8 1, tw 7 1, tw 6 1, tw 5 1]" Stalls "TweetViewer_init 5 None"]
  by (auto simp add: TweetViewer_init_simps displayed_world0
           simp del: deliver.simps yield_results.simps)


section \<open>File rotation\<close>


lemma count_emit [simp]:
  "closes (emit e w) = closes w + (if is_close_file e then 1 else 0)"
  "writes (emit e w) = writes w + (if is_write_line e then 1 else 0)"
  "finishes (emit e w) = finishes w + (if is_written e then 1 else 0)"
  "disconnects (emit e w) = disconnects w + (if e = Disconnect then 1 else 0)"
  "reads (emit e w) = reads w"
  by (simp_all add: closes_def writes_def finishes_def disconnects_def emit_def)

lemma timestamped_file_counts:
  "closes (snd (timestamped_file h w)) = closes w"
  "writes (snd (timestamped_file h w)) = writes w"
  "finishes (snd (timestamped_file h w)) = finishes w"
  "disconnects (snd (timestamped_file h w)) = disconnects w"
  "displayed (snd (timestamped_file h w)) = displayed w"
  "reads (snd (timestamped_file h w)) = Suc (reads w)"
  by (simp_all add: timestamped_file_def now_def Let_def closes_def writes_def finishes_def
        disconnects_def displayed_def emit_def)

text \<open>A record handled by a writable TweetWriter without a date boundary.\<close>

lemma TweetWriter_handle_plain:
  assumes "can_write h" "date_limit h = None"
  shows "\<exists>h' w'. TweetWriter_handle t h w = (None, h', w')
          \<and> \<not> startingup h' \<and> can_write h' \<and> (\<exists>f. output_file h' = Some f \<and> \<not> is_closed f)
          \<and> counter h' = counter h \<and> limit h' = limit h
          \<and> cls h' = cls h \<and> repeat h' = repeat h \<and> date_limit h' = None \<and> do_stop h' = do_stop h
          \<and> reads w' = reads w \<and> closes w' = closes w \<and> writes w' = Suc (writes w)
          \<and> finishes w' = finishes w"
  using assms
  by (auto simp: TweetWriter_handle_def open_output_def can_write_def crosses_date_limit_def
        Let_def split: option.splits)

text \<open>The rotation itself.\<close>

lemma restart_file_effect:
  assumes "output_file h = Some f" "\<not> is_closed f"
  shows "\<exists>h' w'. restart_file h w = (h', w')
          \<and> counter h' = 0 \<and> startingup h'
          \<and> output_file h' = Some (f\<lparr>is_closed := True\<rparr>)
          \<and> fname h' = fst (timestamped_file h (emit (Close_file (path f)) (emit (Print (Written (counter h))) w)))
          \<and> limit h' = limit h \<and> cls h' = cls h \<and> repeat h' = repeat h
          \<and> date_limit h' = date_limit h \<and> do_stop h' = do_stop h
          \<and> reads w' = Suc (reads w) \<and> closes w' = Suc (closes w) \<and> writes w' = writes w
          \<and> finishes w' = Suc (finishes w)"
proof -
  let ?w1 = "emit (Close_file (path f)) (emit (Print (Written (counter h))) w)"
  let ?h1 = "h\<lparr>output_file := Some (f\<lparr>is_closed := True\<rparr>)\<rparr>"
  have fin: "TweetWriter_on_finish h w = (?h1, ?w1)"
    using assms by (simp add: TweetWriter_on_finish_def)
  have same: "timestamped_file ?h1 ?w1 = timestamped_file h ?w1"
    by (simp add: timestamped_file_def)
  obtain name w2 where ts: "timestamped_file h ?w1 = (name, w2)"
    by (cases "timestamped_file h ?w1")
  have w2: "reads w2 = Suc (reads w)" "closes w2 = Suc (closes w)" "writes w2 = writes w"
    "finishes w2 = Suc (finishes w)"
    using timestamped_file_counts [of h ?w1] by (simp_all add: ts)
  have "restart_file h w = (?h1\<lparr>fname := name, startingup := True, counter := 0\<rparr>, w2)"
    by (simp add: restart_file_def fin same ts)
  then show ?thesis
    using w2 by (simp add: ts)
qed


text \<open>
  What the engines do with one record and a rotating TweetWriter, in either order
  (count, handle, ask; or handle, count, ask): the record is written, and when it is
  the \<open>limit\<close>-th the file is rotated.
\<close>

lemma rotating_record:
  assumes "rotating h"
  shows "\<exists>h1 w1 h' w'. TweetWriter_handle t (h\<lparr>counter := counter h + 1\<rparr>) w = (None, h1, w1)
          \<and> counter h1 = counter h + 1
          \<and> TweetWriter_do_continue dflt h1 w1 = (True, h', w')
          \<and> rotating h' \<and> limit h' = limit h
          \<and> counter h' = (if counter h + 1 = limit h then 0 else counter h + 1)
          \<and> startingup h' = (counter h + 1 = limit h)
          \<and> reads w' = reads w + (if counter h + 1 = limit h then 1 else 0)
          \<and> closes w' = closes w + (if counter h + 1 = limit h then 1 else 0)
          \<and> finishes w' = finishes w + (if counter h + 1 = limit h then 1 else 0)
          \<and> writes w' = Suc (writes w)"
proof -
  let ?h0 = "h\<lparr>counter := counter h + 1\<rparr>"
  have pre: "can_write ?h0" "date_limit ?h0 = None"
    using assms by (simp_all add: rotating_def can_write_def)
  from TweetWriter_handle_plain [OF pre, of t w]
  obtain h1 w1 f where hd: "TweetWriter_handle t ?h0 w = (None, h1, w1)"
    and h1: "\<not> startingup h1" "can_write h1" "output_file h1 = Some f" "\<not> is_closed f"
      "counter h1 = counter h + 1" "limit h1 = limit h" "cls h1 = TweetWriter" "repeat h1"
      "date_limit h1 = None" "\<not> do_stop h1"
    and w1: "reads w1 = reads w" "closes w1 = closes w" "writes w1 = Suc (writes w)"
      "finishes w1 = finishes w"
    using assms by (auto simp: rotating_def)
  show ?thesis
  proof (cases "counter h + 1 = limit h")
    case True
    from restart_file_effect [OF h1(3,4), of w1]
    obtain h' w' where rs: "restart_file h1 w1 = (h', w')"
      and h': "counter h' = 0" "startingup h'" "limit h' = limit h1" "cls h' = cls h1"
        "repeat h' = repeat h1" "date_limit h' = date_limit h1" "do_stop h' = do_stop h1"
      and w': "reads w' = Suc (reads w1)" "closes w' = Suc (closes w1)" "writes w' = writes w1"
        "finishes w' = Suc (finishes w1)"
      by auto
    have "TweetWriter_do_continue dflt h1 w1 = (True, h', w')"
      using True h1 rs by (simp add: TweetWriter_do_continue_def)
    then show ?thesis
      using hd h1 h' w1 w' True by (simp add: rotating_def can_write_def)
  next
    case False
    have "TweetWriter_do_continue dflt h1 w1 = (True, h1, w1)"
      using False h1 by (simp add: TweetWriter_do_continue_def)
    then show ?thesis
      using hd h1 w1 False by (simp add: rotating_def)
  qed
qed


lemma TweetWriter_handle_counter_update:
  "TweetWriter_handle t (h\<lparr>counter := c\<rparr>) w =
     (case TweetWriter_handle t h w of (e, h1, w1) \<Rightarrow> (e, h1\<lparr>counter := c\<rparr>, w1))"
  by (auto simp: TweetWriter_handle_def open_output_def crosses_date_limit_def Let_def
        split: option.splits)

lemma rotating_on_success:
  assumes "rotating h" "streamer_handler s = Some h" "streamer_do_continue s"
  shows "\<exists>h' w'. Streamer_on_success dflt (Status t) s w
                    = (None, s\<lparr>streamer_handler := Some h', streamer_do_continue := True\<rparr>, w')
          \<and> rotating h' \<and> limit h' = limit h
          \<and> counter h' = (if counter h + 1 = limit h then 0 else counter h + 1)
          \<and> startingup h' = (counter h + 1 = limit h)
          \<and> reads w' = reads w + (if counter h + 1 = limit h then 1 else 0)
          \<and> closes w' = closes w + (if counter h + 1 = limit h then 1 else 0)
          \<and> finishes w' = finishes w + (if counter h + 1 = limit h then 1 else 0)
          \<and> writes w' = Suc (writes w)"
proof -
  from rotating_record [OF assms(1), of t w dflt]
  obtain h1 w1 h' w' where
    a: "TweetWriter_handle t (h\<lparr>counter := counter h + 1\<rparr>) w = (None, h1, w1)"
    and b: "TweetWriter_do_continue dflt h1 w1 = (True, h', w')"
    and c: "rotating h'" "limit h' = limit h"
      "counter h' = (if counter h + 1 = limit h then 0 else counter h + 1)"
      "startingup h' = (counter h + 1 = limit h)"
      "reads w' = reads w + (if counter h + 1 = limit h then 1 else 0)"
      "closes w' = closes w + (if counter h + 1 = limit h then 1 else 0)"
      "finishes w' = finishes w + (if counter h + 1 = limit h then 1 else 0)"
      "writes w' = Suc (writes w)"
    by blast
  have w: "cls h = TweetWriter" using assms(1) by (simp add: rotating_def)
  have w1: "cls h1 = TweetWriter"
    using a w by (auto simp: TweetWriter_handle_def open_output_def Let_def
                       split: option.splits if_splits)
  have "Streamer_on_success dflt (Status t) s w
          = (None, s\<lparr>streamer_handler := Some h', streamer_do_continue := True\<rparr>, w')"
    using assms(2,3) a b w w1
    by (simp add: Streamer_on_success_def handler_handle_def handler_do_continue_def)
  with c show ?thesis by blast
qed

lemma rotating_yield:
  assumes "rotating h"
  shows "\<exists>h' w'. yield_results dflt handler_handle (t # ts) h w
                    = yield_results dflt handler_handle ts h' w'
          \<and> rotating h' \<and> limit h' = limit h
          \<and> counter h' = (if counter h + 1 = limit h then 0 else counter h + 1)
          \<and> startingup h' = (counter h + 1 = limit h)
          \<and> reads w' = reads w + (if counter h + 1 = limit h then 1 else 0)
          \<and> closes w' = closes w + (if counter h + 1 = limit h then 1 else 0)
          \<and> finishes w' = finishes w + (if counter h + 1 = limit h then 1 else 0)
          \<and> writes w' = Suc (writes w)"
proof -
  let ?w0 = "emit (Yield t) w"
  from rotating_record [OF assms(1), of t ?w0 dflt]
  obtain h1 w1 h' w' where
    a: "TweetWriter_handle t (h\<lparr>counter := counter h + 1\<rparr>) ?w0 = (None, h1, w1)"
    and a': "counter h1 = counter h + 1"
    and b: "TweetWriter_do_continue dflt h1 w1 = (True, h', w')"
    and c: "rotating h'" "limit h' = limit h"
      "counter h' = (if counter h + 1 = limit h then 0 else counter h + 1)"
      "startingup h' = (counter h + 1 = limit h)"
      "reads w' = reads ?w0 + (if counter h + 1 = limit h then 1 else 0)"
      "closes w' = closes ?w0 + (if counter h + 1 = limit h then 1 else 0)"
      "finishes w' = finishes ?w0 + (if counter h + 1 = limit h then 1 else 0)"
      "writes w' = Suc (writes ?w0)"
    by blast
  obtain e g v where plain: "TweetWriter_handle t h ?w0 = (e, g, v)"
    by (metis prod_cases3)
  have eq: "e = None" "h1 = g\<lparr>counter := counter h + 1\<rparr>" "w1 = v"
    using a plain by (simp_all add: TweetWriter_handle_counter_update)
  have cg: "counter g = counter h"
    using plain TweetWriter_handle_counter [of t h ?w0] by simp
  have w: "cls h = TweetWriter" using assms(1) by (simp add: rotating_def)
  have wg: "cls g = TweetWriter"
    using plain w by (auto simp: TweetWriter_handle_def open_output_def Let_def
                       split: option.splits if_splits)
  have "yield_results dflt handler_handle (t # ts) h w
          = yield_results dflt handler_handle ts h' w'"
    using plain eq cg b w wg
    by (simp add: handler_handle_def handler_do_continue_def)
  with c show ?thesis
    by (intro exI [of _ h'] exI [of _ w']) (simp del: yield_results.simps)
qed


lemma wrap_mod:
  assumes "0 \<le> (c::int)" "c < L" "0 \<le> (n::int)"
  shows "((if c + 1 = L then 0 else c + 1) + n) mod L = (c + 1 + n) mod L"
proof (cases "c + 1 = L")
  case True
  have "(L + n) mod L = n mod L" by (rule mod_add_self1)
  then show ?thesis using True by simp
next
  case False
  then show ?thesis by simp
qed

lemma wrap_div:
  assumes "0 \<le> (c::int)" "c < L" "0 \<le> (n::int)"
  shows "(if c + 1 = L then 1 else 0) + nat (((if c + 1 = L then 0 else c + 1) + n) div L)
         = nat ((c + 1 + n) div L)"
proof (cases "c + 1 = L")
  case True
  have "0 < L" using assms by simp
  then have "(L + n) div L = 1 + n div L" using div_add_self1 [of L n] by simp
  moreover have "0 \<le> n div L" using assms \<open>0 < L\<close> by (simp add: pos_imp_zdiv_nonneg_iff)
  ultimately show ?thesis using True by (simp add: nat_add_distrib)
next
  case False
  then show ?thesis by simp
qed

lemma deliver_rotating:
  assumes "rotating h" "streamer_handler s = Some h" "streamer_do_continue s"
    "0 \<le> counter h" "counter h < limit h" "connected s"
  shows "\<exists>h'. streamer_handler (fst (snd (deliver dflt (map Status ts) e s w))) = Some h'
          \<and> streamer_do_continue (fst (snd (deliver dflt (map Status ts) e s w)))
          \<and> rotating h'
          \<and> counter h' = (counter h + int (length ts)) mod limit h
          \<and> reads (snd (snd (deliver dflt (map Status ts) e s w)))
               = reads w + nat ((counter h + int (length ts)) div limit h)
          \<and> closes (snd (snd (deliver dflt (map Status ts) e s w)))
               = closes w + nat ((counter h + int (length ts)) div limit h)
          \<and> finishes (snd (snd (deliver dflt (map Status ts) e s w)))
               = finishes w + nat ((counter h + int (length ts)) div limit h)
          \<and> writes (snd (snd (deliver dflt (map Status ts) e s w))) = writes w + length ts
          \<and> fst (deliver dflt (map Status ts) e s w)
               = (case e of Breaks \<Rightarrow> Raised ChunkedEncodingError | Stalls \<Rightarrow> Blocked)"
  using assms
proof (induction ts arbitrary: h s w)
  case Nil
  then show ?case by (cases e) simp_all
next
  case (Cons t ts)
  let ?c = "if counter h + 1 = limit h then 0 else counter h + 1"
  let ?k = "if counter h + 1 = limit h then 1 else 0 :: nat"
  from rotating_on_success [OF Cons.prems(1,2,3), of dflt t w]
  obtain h1 w1 where
    step: "Streamer_on_success dflt (Status t) s w
             = (None, s\<lparr>streamer_handler := Some h1, streamer_do_continue := True\<rparr>, w1)"
    and h1: "rotating h1" "limit h1 = limit h" "counter h1 = ?c"
    and w1: "reads w1 = reads w + ?k" "closes w1 = closes w + ?k" "finishes w1 = finishes w + ?k"
      "writes w1 = Suc (writes w)"
    by auto
  let ?s1 = "s\<lparr>streamer_handler := Some h1, streamer_do_continue := True\<rparr>"
  have bounds: "0 \<le> counter h1" "counter h1 < limit h1"
    using h1 Cons.prems(4,5) by (auto split: if_splits)
  have unfold: "deliver dflt (Status t # map Status ts) e s w
                  = (if connected s then deliver dflt (map Status ts) e ?s1 w1
                     else (Returned, ?s1, w1))"
    by (simp add: step)
  show ?case
  proof -
    have True: "connected s" by (rule Cons.prems(6))
    from Cons.IH [of h1 ?s1 w1] h1 bounds True
    obtain h' where
      "streamer_handler (fst (snd (deliver dflt (map Status ts) e ?s1 w1))) = Some h'"
      "streamer_do_continue (fst (snd (deliver dflt (map Status ts) e ?s1 w1)))"
      "rotating h'"
      "counter h' = (?c + int (length ts)) mod limit h"
      "reads (snd (snd (deliver dflt (map Status ts) e ?s1 w1)))
         = reads w1 + nat ((?c + int (length ts)) div limit h)"
      "closes (snd (snd (deliver dflt (map Status ts) e ?s1 w1)))
         = closes w1 + nat ((?c + int (length ts)) div limit h)"
      "finishes (snd (snd (deliver dflt (map Status ts) e ?s1 w1)))
         = finishes w1 + nat ((?c + int (length ts)) div limit h)"
      "writes (snd (snd (deliver dflt (map Status ts) e ?s1 w1))) = writes w1 + length ts"
      "fst (deliver dflt (map Status ts) e ?s1 w1)
         = (case e of Breaks \<Rightarrow> Raised ChunkedEncodingError | Stalls \<Rightarrow> Blocked)"
      by auto
    moreover have "(?c + int (length ts)) mod limit h = (counter h + int (length (t # ts))) mod limit h"
      using wrap_mod [OF Cons.prems(4,5), of "int (length ts)"] by (simp add: add.commute add.left_commute)
    moreover have "?k + nat ((?c + int (length ts)) div limit h)
                     = nat ((counter h + int (length (t # ts))) div limit h)"
      using wrap_div [OF Cons.prems(4,5), of "int (length ts)"] by (simp add: add.commute add.left_commute)
    ultimately show ?thesis
      unfolding list.map unfold using True w1
      by (intro exI [of _ h']) (simp del: deliver.simps)
  qed
qed


lemma yield_results_rotating:
  assumes "rotating h" "0 \<le> counter h" "counter h < limit h"
  shows "\<exists>h' w'. yield_results dflt handler_handle ts h w = (Exhausted, h', w')
          \<and> rotating h'
          \<and> counter h' = (counter h + int (length ts)) mod limit h
          \<and> reads w' = reads w + nat ((counter h + int (length ts)) div limit h)
          \<and> closes w' = closes w + nat ((counter h + int (length ts)) div limit h)
          \<and> finishes w' = finishes w + nat ((counter h + int (length ts)) div limit h)
          \<and> writes w' = writes w + length ts"
  using assms
proof (induction ts arbitrary: h w)
  case Nil
  then show ?case by simp
next
  case (Cons t ts)
  let ?c = "if counter h + 1 = limit h then 0 else counter h + 1"
  let ?k = "if counter h + 1 = limit h then 1 else 0 :: nat"
  from rotating_yield [OF Cons.prems(1), of dflt t ts w]
  obtain h1 w1 where
    step: "yield_results dflt handler_handle (t # ts) h w = yield_results dflt handler_handle ts h1 w1"
    and h1: "rotating h1" "limit h1 = limit h" "counter h1 = ?c"
    and w1: "reads w1 = reads w + ?k" "closes w1 = closes w + ?k" "finishes w1 = finishes w + ?k"
      "writes w1 = Suc (writes w)"
    by auto
  have bounds: "0 \<le> counter h1" "counter h1 < limit h1"
    using h1 Cons.prems(2,3) by (auto split: if_splits)
  from Cons.IH [of h1 w1] h1 bounds
  obtain h' w' where
    "yield_results dflt handler_handle ts h1 w1 = (Exhausted, h', w')"
    "rotating h'"
    "counter h' = (?c + int (length ts)) mod limit h"
    "reads w' = reads w1 + nat ((?c + int (length ts)) div limit h)"
    "closes w' = closes w1 + nat ((?c + int (length ts)) div limit h)"
    "finishes w' = finishes w1 + nat ((?c + int (length ts)) div limit h)"
    "writes w' = writes w1 + length ts"
    by auto
  moreover have "(?c + int (length ts)) mod limit h = (counter h + int (length (t # ts))) mod limit h"
    using wrap_mod [OF Cons.prems(2,3), of "int (length ts)"] by (simp add: add.commute add.left_commute)
  moreover have "?k + nat ((?c + int (length ts)) div limit h)
                   = nat ((counter h + int (length (t # ts))) div limit h)"
    using wrap_div [OF Cons.prems(2,3), of "int (length ts)"] by (simp add: add.commute add.left_commute)
  ultimately show ?case
    unfolding step using w1
    by (intro exI [of _ h'] exI [of _ w']) (simp del: yield_results.simps)
qed

lemma timestamped_file_name:
  "fst (timestamped_file h w)
     = os_path_join (subdir h) (fprefix h) @ ''.'' @ clock w (reads w) @ ''.json''
         @ (if gzip_compress h then ''.gz'' else [])"
  by (simp add: timestamped_file_def now_def emit_def Let_def)

lemma restart_file_general:
  "counter (fst (restart_file h w)) = 0
   \<and> startingup (fst (restart_file h w))
   \<and> fname (fst (restart_file h w))
       = os_path_join (subdir h) (fprefix h) @ ''.'' @ clock w (reads w) @ ''.json''
           @ (if gzip_compress h then ''.gz'' else [])
   \<and> reads (snd (restart_file h w)) = Suc (reads w)
   \<and> finishes (snd (restart_file h w)) = Suc (finishes w)"
proof -
  obtain h1 w1 where fin: "TweetWriter_on_finish h w = (h1, w1)"
    by (cases "TweetWriter_on_finish h w")
  then have same: "subdir h1 = subdir h" "fprefix h1 = fprefix h" "gzip_compress h1 = gzip_compress h"
    "clock w1 = clock w" "reads w1 = reads w" "finishes w1 = Suc (finishes w)"
    by (auto simp: TweetWriter_on_finish_def Let_def emit_def finishes_def
             split: option.splits if_splits)
  obtain name w2 where ts: "timestamped_file h1 w1 = (name, w2)"
    by (cases "timestamped_file h1 w1")
  have name: "name = os_path_join (subdir h) (fprefix h) @ ''.'' @ clock w (reads w) @ ''.json''
                       @ (if gzip_compress h then ''.gz'' else [])"
    using timestamped_file_name [of h1 w1] ts same by simp
  have w2: "reads w2 = Suc (reads w)" "finishes w2 = Suc (finishes w)"
    using timestamped_file_counts [of h1 w1] ts same by simp_all
  have "restart_file h w = (h1\<lparr>fname := name, startingup := True, counter := 0\<rparr>, w2)"
    by (simp add: restart_file_def fin ts)
  then show ?thesis using name w2 by simp
qed

text \<open>
  C5. A TweetWriter in repeat mode without a date boundary, not stopped, with a
  positive limit. Its \<^verbatim>\<open>do_continue()\<close> always answers \<open>True\<close>. It changes nothing
  unless the counter equals the limit; then it rotates: the open file is closed, the
  name is taken anew from the clock, \<open>startingup\<close> is set and the counter is 0 when the
  call returns. Fed \<open>n\<close> records from a counter of 0, by the streaming engine or by
  the search generator and its dispatch loop, it writes all \<open>n\<close>, has rotated exactly
  \<open>n div limit\<close> times (clock reads, files closed) and its counter is \<open>n mod limit\<close>;
  the streamer's flag is still true.
\<close>

theorem rotation_every_limit_records:
  assumes "rotating h" "0 < limit h"
  shows "fst (TweetWriter_do_continue dflt h w) = True
    \<and> (counter h \<noteq> limit h \<longrightarrow> TweetWriter_do_continue dflt h w = (True, h, w))
    \<and> (counter h = limit h \<longrightarrow>
          counter (fst (snd (TweetWriter_do_continue dflt h w))) = 0
        \<and> startingup (fst (snd (TweetWriter_do_continue dflt h w)))
        \<and> fname (fst (snd (TweetWriter_do_continue dflt h w)))
            = os_path_join (subdir h) (fprefix h) @ ''.'' @ clock w (reads w) @ ''.json''
                @ (if gzip_compress h then ''.gz'' else [])
        \<and> reads (snd (snd (TweetWriter_do_continue dflt h w))) = Suc (reads w)
        \<and> (\<forall>f. output_file h = Some f \<and> \<not> is_closed f \<longrightarrow>
               output_file (fst (snd (TweetWriter_do_continue dflt h w))) = Some (f\<lparr>is_closed := True\<rparr>)
             \<and> closes (snd (snd (TweetWriter_do_continue dflt h w))) = Suc (closes w)))
    \<and> (counter h = 0 \<and> streamer_handler s = Some h \<and> streamer_do_continue s \<and> connected s \<longrightarrow>
         (\<exists>h'. streamer_handler (fst (snd (deliver dflt (map Status ts) e s w))) = Some h'
           \<and> streamer_do_continue (fst (snd (deliver dflt (map Status ts) e s w)))
           \<and> counter h' = int (length ts) mod limit h
           \<and> reads (snd (snd (deliver dflt (map Status ts) e s w)))
                = reads w + nat (int (length ts) div limit h)
           \<and> closes (snd (snd (deliver dflt (map Status ts) e s w)))
                = closes w + nat (int (length ts) div limit h)
           \<and> writes (snd (snd (deliver dflt (map Status ts) e s w))) = writes w + length ts))
    \<and> (counter h = 0 \<longrightarrow>
         (\<exists>h' w'. yield_results dflt handler_handle ts h w = (Exhausted, h', w')
           \<and> counter h' = int (length ts) mod limit h
           \<and> reads w' = reads w + nat (int (length ts) div limit h)
           \<and> closes w' = closes w + nat (int (length ts) div limit h)
           \<and> writes w' = writes w + length ts))"
proof -
  have rep: "repeat h" "\<not> do_stop h" using assms(1) by (simp_all add: rotating_def)
  have a: "fst (TweetWriter_do_continue dflt h w) = True"
    using rep by (simp add: TweetWriter_do_continue_def split: prod.splits)
  have b: "counter h \<noteq> limit h \<longrightarrow> TweetWriter_do_continue dflt h w = (True, h, w)"
    using rep by (simp add: TweetWriter_do_continue_def)
  have dc: "counter h = limit h \<Longrightarrow>
            snd (TweetWriter_do_continue dflt h w) = restart_file h w"
    using rep by (simp add: TweetWriter_do_continue_def split: prod.splits)
  have c: "counter h = limit h \<longrightarrow>
          counter (fst (snd (TweetWriter_do_continue dflt h w))) = 0
        \<and> startingup (fst (snd (TweetWriter_do_continue dflt h w)))
        \<and> fname (fst (snd (TweetWriter_do_continue dflt h w)))
            = os_path_join (subdir h) (fprefix h) @ ''.'' @ clock w (reads w) @ ''.json''
                @ (if gzip_compress h then ''.gz'' else [])
        \<and> reads (snd (snd (TweetWriter_do_continue dflt h w))) = Suc (reads w)
        \<and> (\<forall>f. output_file h = Some f \<and> \<not> is_closed f \<longrightarrow>
               output_file (fst (snd (TweetWriter_do_continue dflt h w))) = Some (f\<lparr>is_closed := True\<rparr>)
             \<and> closes (snd (snd (TweetWriter_do_continue dflt h w))) = Suc (closes w))"
  proof
    assume eq: "counter h = limit h"
    have "\<forall>f. output_file h = Some f \<and> \<not> is_closed f \<longrightarrow>
               output_file (fst (restart_file h w)) = Some (f\<lparr>is_closed := True\<rparr>)
             \<and> closes (snd (restart_file h w)) = Suc (closes w)"
    proof (intro allI impI)
      fix f assume "output_file h = Some f \<and> \<not> is_closed f"
      then have "output_file h = Some f" "\<not> is_closed f" by simp_all
      from restart_file_effect [OF this, of w]
      show "output_file (fst (restart_file h w)) = Some (f\<lparr>is_closed := True\<rparr>)
             \<and> closes (snd (restart_file h w)) = Suc (closes w)"
        by auto
    qed
    then show "counter (fst (snd (TweetWriter_do_continue dflt h w))) = 0
        \<and> startingup (fst (snd (TweetWriter_do_continue dflt h w)))
        \<and> fname (fst (snd (TweetWriter_do_continue dflt h w)))
            = os_path_join (subdir h) (fprefix h) @ ''.'' @ clock w (reads w) @ ''.json''
                @ (if gzip_compress h then ''.gz'' else [])
        \<and> reads (snd (snd (TweetWriter_do_continue dflt h w))) = Suc (reads w)
        \<and> (\<forall>f. output_file h = Some f \<and> \<not> is_closed f \<longrightarrow>
               output_file (fst (snd (TweetWriter_do_continue dflt h w))) = Some (f\<lparr>is_closed := True\<rparr>)
             \<and> closes (snd (snd (TweetWriter_do_continue dflt h w))) = Suc (closes w))"
      using restart_file_general [of h w] unfolding dc [OF eq] by auto
  qed
  have d: "counter h = 0 \<and> streamer_handler s = Some h \<and> streamer_do_continue s \<and> connected s \<longrightarrow>
         (\<exists>h'. streamer_handler (fst (snd (deliver dflt (map Status ts) e s w))) = Some h'
           \<and> streamer_do_continue (fst (snd (deliver dflt (map Status ts) e s w)))
           \<and> counter h' = int (length ts) mod limit h
           \<and> reads (snd (snd (deliver dflt (map Status ts) e s w)))
                = reads w + nat (int (length ts) div limit h)
           \<and> closes (snd (snd (deliver dflt (map Status ts) e s w)))
                = closes w + nat (int (length ts) div limit h)
           \<and> writes (snd (snd (deliver dflt (map Status ts) e s w))) = writes w + length ts)"
  proof
    assume pre: "counter h = 0 \<and> streamer_handler s = Some h \<and> streamer_do_continue s \<and> connected s"
    then have "0 \<le> counter h" "counter h < limit h" using assms(2) by simp_all
    from deliver_rotating [OF assms(1) _ _ this, of s dflt ts e w] pre
    show "\<exists>h'. streamer_handler (fst (snd (deliver dflt (map Status ts) e s w))) = Some h'
           \<and> streamer_do_continue (fst (snd (deliver dflt (map Status ts) e s w)))
           \<and> counter h' = int (length ts) mod limit h
           \<and> reads (snd (snd (deliver dflt (map Status ts) e s w)))
                = reads w + nat (int (length ts) div limit h)
           \<and> closes (snd (snd (deliver dflt (map Status ts) e s w)))
                = closes w + nat (int (length ts) div limit h)
           \<and> writes (snd (snd (deliver dflt (map Status ts) e s w))) = writes w + length ts"
      by auto
  qed
  have e: "counter h = 0 \<longrightarrow>
         (\<exists>h' w'. yield_results dflt handler_handle ts h w = (Exhausted, h', w')
           \<and> counter h' = int (length ts) mod limit h
           \<and> reads w' = reads w + nat (int (length ts) div limit h)
           \<and> closes w' = closes w + nat (int (length ts) div limit h)
           \<and> writes w' = writes w + length ts)"
  proof
    assume pre: "counter h = 0"
    then have "0 \<le> counter h" "counter h < limit h" using assms(2) by simp_all
    from yield_results_rotating [OF assms(1) this, of dflt ts w] pre
    show "\<exists>h' w'. yield_results dflt handler_handle ts h w = (Exhausted, h', w')
           \<and> counter h' = int (length ts) mod limit h
           \<and> reads w' = reads w + nat (int (length ts) div limit h)
           \<and> closes w' = closes w + nat (int (length ts) div limit h)
           \<and> writes w' = writes w + length ts"
      by auto
  qed
  from a b c d e show ?thesis by blast
qed


lemma world1_counts:
  "reads world1 = 1" "closes world1 = 0" "writes world1 = 0" "finishes world1 = 0"
  "disconnects world1 = 0" "displayed world1 = 0"
  by (simp_all add: world1_simps closes_def writes_def finishes_def disconnects_def displayed_def)

lemma rotating_writer:
  "rotating ((writer lim None strm True)\<lparr>counter := c\<rparr>)"
  "rotating (writer lim None strm True)"
  by (simp_all add: rotating_def can_write_def writer_simps)

lemma writer_proj:
  "cls (writer lim dl strm rep) = TweetWriter"
  "counter (writer lim dl strm rep) = 0"
  "limit (writer lim dl strm rep) = lim"
  "do_stop (writer lim dl strm rep) = False"
  "date_limit (writer lim dl strm rep) = dl"
  "startingup (writer lim dl strm rep) = True"
  "stream (writer lim dl strm rep) = strm"
  "repeat (writer lim dl strm rep) = rep"
  "max_id (writer lim dl strm rep) = None"
  "output_file (writer lim dl strm rep) = None"
  by (simp_all add: writer_simps)

theorem rotation_every_limit_records_witness:
  "rotating (writer 2 None True True) \<and> 0 < limit (writer 2 None True True)
   \<and> (\<exists>h' w'. yield_results default_do_continue handler_handle
                  [tw 9 1, tw 8 1, tw 7 1, tw 6 1, tw 5 1] (writer 2 None True True) world1
                = (Exhausted, h', w')
        \<and> counter h' = 1 \<and> reads w' = 3 \<and> closes w' = 2 \<and> writes w' = 5)
   \<and> counter (fst (snd (TweetWriter_do_continue default_do_continue
                 ((writer 2 None True True)\<lparr>counter := 2\<rparr>) world1))) = 0"
  using rotation_every_limit_records [of "writer 2 None True True" default_do_continue world1
          Streamer_init "[tw 9 1, tw 8 1, tw 7 1, tw 6 1, tw 5 1]" Stalls]
        rotation_every_limit_records [of "(writer 2 None True True)\<lparr>counter := 2\<rparr>"
          default_do_continue world1 Streamer_init "[]" Stalls]
  by (auto simp add: rotating_writer world1_counts writer_proj
        simp del: yield_results.simps deliver.simps)


section \<open>The date boundary\<close>








lemma TweetWriter_handle_cls:
  "cls (fst (snd (TweetWriter_handle t h w))) = cls h"
  by (simp add: TweetWriter_handle_def open_output_def Let_def split: option.splits)






lemma tw_proj:
  "tweet_id (tw i d) = i" "created_at (tw i d) = d" "tweet_text (tw i d) = ''hello''"
  by (simp_all add: tw_def)




section \<open>The end of a streaming session\<close>
























section \<open>A failed page request in the search generator\<close>





lemmas search_defs =
  search_tweets_body_def request_page_def falsy_def no_consumer_def BasicTweetHandler_init_def
  handler_do_continue_def default_do_continue_def emit_def world0_def tw_def Let_def

lemma failure_simps:
  "fst failure_after_first_page = Returned"
  "yielded (trace (snd (snd failure_after_first_page))) = [tw 10 1, tw 10 1]"
  "fst failure_fills_limit = Returned"
  "yielded (trace (snd (snd failure_fills_limit))) = [tw 10 1, tw 10 1]"
  "searches (snd (snd failure_fills_limit)) = 2"
  "fst failure_with_cursor = Raised UnboundLocalError"
  "yielded (trace (snd (snd failure_with_cursor))) = []"
  by (simp_all add: failure_after_first_page_def failure_fills_limit_def failure_with_cursor_def
        search_defs searches_def requests_def)


text \<open>
  C1, at two inputs where the code does not retry. With \<^verbatim>\<open>max_id=50\<close> and one retry
  allowed, the first failure ends the generator with \<^verbatim>\<open>UnboundLocalError\<close>; nothing
  is yielded. With a limit of 2, a first page of one Tweet and one retry allowed, the
  failure makes the generator yield that Tweet again and finish: two requests were
  made in all, the failed one was never made again.
\<close>

theorem failed_request_not_retried:
  "fst failure_with_cursor = Raised UnboundLocalError
   \<and> yielded (trace (snd (snd failure_with_cursor))) = []
   \<and> fst failure_fills_limit = Returned
   \<and> yielded (trace (snd (snd failure_fills_limit))) = [tw 10 1, tw 10 1]
   \<and> searches (snd (snd failure_fills_limit)) = 2"
  by (simp add: failure_simps)



section \<open>The cursor of the search generator\<close>


lemma handler_handle_max_id:
  "max_id (fst (snd (handler_handle t h w))) = max_id h"
  by (auto simp: handler_handle_def TweetViewer_handle_def TweetWriter_handle_def open_output_def
        Let_def split: handler_class.splits option.splits)

lemma restart_file_max_id: "max_id (fst (restart_file h w)) = max_id h"
  by (auto simp: restart_file_def TweetWriter_on_finish_def Let_def
        split: prod.splits option.splits)

lemma handler_do_continue_max_id:
  "max_id (fst (snd (handler_do_continue dflt h w))) = max_id h"
  using restart_file_max_id [of h w]
  by (auto simp: handler_do_continue_def TweetWriter_do_continue_def
        split: handler_class.splits prod.splits)

lemma yield_results_max_id:
  "max_id (fst (snd (yield_results dflt handler_handle ts h w))) = max_id h"
proof (induction ts arbitrary: h w)
  case Nil
  then show ?case by simp
next
  case (Cons t ts)
  obtain e h1 w1 where hd: "handler_handle t h (emit (Yield t) w) = (e, h1, w1)"
    by (metis prod_cases3)
  obtain b h2 w2 where dc: "handler_do_continue dflt (h1\<lparr>counter := counter h1 + 1\<rparr>) w1 = (b, h2, w2)"
    by (metis prod_cases3)
  have a: "max_id h1 = max_id h"
    using handler_handle_max_id [of t h "emit (Yield t) w"] hd by simp
  have b: "max_id h2 = max_id h1"
    using handler_do_continue_max_id [of dflt "h1\<lparr>counter := counter h1 + 1\<rparr>" w1] dc by simp
  show ?case
    using hd dc a b Cons.IH [of h2 w2] by (cases e) simp_all
qed

lemma pagination_Statuses:
  assumes "count_from_query < lim" "page \<noteq> []"
  shows "pagination dflt consume keywords lim lang n (Statuses page # rest) count_from_query mx retries
           results h w
         = (case yield_results dflt consume page (h\<lparr>max_id := Some (tweet_id (last page) - 1)\<rparr>)
                   (emit (Search keywords (min 100 (lim - count_from_query)) lang (Some mx)) w) of
              (Exhausted, h2, w2) \<Rightarrow>
                pagination dflt consume keywords lim lang n rest
                  (count_from_query + int (length page)) (tweet_id (last page) - 1)
                  retries (Some page) h2 w2
            | (Stopped, h2, w2) \<Rightarrow> (Returned, h2, w2)
            | (Aborted e, h2, w2) \<Rightarrow> (Raised e, h2, w2))"
  using assms by (auto simp: request_page_def Let_def split: option.splits)

lemma pagination_Nil:
  "pagination dflt consume keywords lim lang n [] count_from_query mx retries results h w
     = ((if count_from_query < lim then Blocked else Returned), h, w)"
  by simp

lemma last_is_Min:
  assumes "page \<noteq> []" "\<forall>t\<in>set page. tweet_id (last page) \<le> tweet_id t"
  shows "tweet_id (last page) = Min (tweet_id ` set page)"
proof -
  have "tweet_id (last page) \<in> tweet_id ` set page" using assms(1) by simp
  moreover have "\<forall>i\<in>tweet_id ` set page. tweet_id (last page) \<le> i" using assms(2) by auto
  ultimately have "Min (tweet_id ` set page) = tweet_id (last page)"
    by (intro Min_eqI) auto
  then show ?thesis by simp
qed


text \<open>
  C2 (as amended). After a successful non-empty page the cursor of the generator is the
  id of the page's last record minus 1: the pagination loop goes on with it after a
  pagination page, and starts with it after the first page. A pagination page stores
  it on the handler before the page is yielded, and the handler still holds it when
  the page has been dispatched to it. It is the minimum id of the page minus 1 when
  no record of the page has a smaller id than the last one, and it is below the
  previous cursor when the last id is not above that cursor. A new TweetWriter has no
  cursor.
\<close>

theorem cursor_is_last_id_minus_one:
  assumes "page \<noteq> []"
  shows "(count_from_query < lim
          \<and> yield_results dflt consume page (h\<lparr>max_id := Some (tweet_id (last page) - 1)\<rparr>)
               (emit (Search keywords (min 100 (lim - count_from_query)) lang (Some mx)) w)
             = (Exhausted, h2, w2) \<longrightarrow>
           pagination dflt consume keywords lim lang n (Statuses page # rest) count_from_query mx
             retries results h w
           = pagination dflt consume keywords lim lang n rest (count_from_query + int (length page))
               (tweet_id (last page) - 1) retries (Some page) h2 w2)
     \<and> (falsy mxo
          \<and> yield_results dflt consume page h (emit (Search keywords (min 100 lim) lang None) w)
             = (Exhausted, h2, w2) \<longrightarrow>
           search_tweets_body dflt consume keywords lim lang mxo n (Statuses page # rest) h w
           = pagination dflt consume keywords lim lang n rest (int (length page))
               (tweet_id (last page) - 1) 0 (Some page) h2 w2)
     \<and> (count_from_query < lim \<longrightarrow>
           max_id (fst (snd (pagination dflt handler_handle keywords lim lang n [Statuses page]
                               count_from_query mx retries results h w)))
           = Some (tweet_id (last page) - 1))
     \<and> ((\<forall>t\<in>set page. tweet_id (last page) \<le> tweet_id t) \<longrightarrow>
           tweet_id (last page) - 1 = Min (tweet_id ` set page) - 1)
     \<and> (tweet_id (last page) \<le> mx \<longrightarrow> tweet_id (last page) - 1 < mx)
     \<and> max_id (fst (TweetWriter_init lim' dl strm fpre sub rep gz w)) = None"
proof (intro conjI impI)
  assume "count_from_query < lim
          \<and> yield_results dflt consume page (h\<lparr>max_id := Some (tweet_id (last page) - 1)\<rparr>)
               (emit (Search keywords (min 100 (lim - count_from_query)) lang (Some mx)) w)
             = (Exhausted, h2, w2)"
  then show "pagination dflt consume keywords lim lang n (Statuses page # rest) count_from_query mx
             retries results h w
           = pagination dflt consume keywords lim lang n rest (count_from_query + int (length page))
               (tweet_id (last page) - 1) retries (Some page) h2 w2"
    using assms by (simp add: pagination_Statuses del: pagination.simps)
next
  assume "falsy mxo
          \<and> yield_results dflt consume page h (emit (Search keywords (min 100 lim) lang None) w)
             = (Exhausted, h2, w2)"
  then show "search_tweets_body dflt consume keywords lim lang mxo n (Statuses page # rest) h w
           = pagination dflt consume keywords lim lang n rest (int (length page))
               (tweet_id (last page) - 1) 0 (Some page) h2 w2"
    using assms by (simp add: search_tweets_body_def Let_def del: pagination.simps)
next
  assume lt: "count_from_query < lim"
  let ?c = "tweet_id (last page) - 1"
  let ?w1 = "emit (Search keywords (min 100 (lim - count_from_query)) lang (Some mx)) w"
  obtain p h3 w3 where y: "yield_results dflt handler_handle page (h\<lparr>max_id := Some ?c\<rparr>) ?w1
                            = (p, h3, w3)"
    by (metis prod_cases3)
  have "max_id h3 = Some ?c"
    using yield_results_max_id [of dflt page "h\<lparr>max_id := Some ?c\<rparr>" ?w1] y by simp
  then show "max_id (fst (snd (pagination dflt handler_handle keywords lim lang n [Statuses page]
                               count_from_query mx retries results h w))) = Some ?c"
    using lt assms y
    by (cases p) (simp_all add: pagination_Statuses pagination_Nil del: pagination.simps)
next
  assume "\<forall>t\<in>set page. tweet_id (last page) \<le> tweet_id t"
  then show "tweet_id (last page) - 1 = Min (tweet_id ` set page) - 1"
    using last_is_Min [OF assms] by simp
next
  assume "tweet_id (last page) \<le> mx"
  then show "tweet_id (last page) - 1 < mx" by simp
next
  show "max_id (fst (TweetWriter_init lim' dl strm fpre sub rep gz w)) = None"
    by (simp add: TweetWriter_init_def TweetHandlerI_init_def Let_def split: prod.splits)
qed

lemma page_simps:
  "max_id (fst (snd unsorted_page)) = Some 6"
  "fst first_page_only = Returned"
  "yielded (trace (snd (snd first_page_only))) = [tw 9 1]"
  "max_id (fst (snd first_page_only)) = None"
  by (simp_all add: unsorted_page_def first_page_only_def search_defs)

text \<open>
  C2 as stated fails: for the page that lists the Tweet 5 before the Tweet 7 the
  cursor stored is 6, not 4; and after the call whose only page is its first one the
  handler has no cursor.
\<close>

theorem cursor_counterexample:
  "max_id (fst (snd unsorted_page)) = Some 6
   \<and> Min (tweet_id ` set [tw 5 1, tw 7 1]) - 1 = 4
   \<and> fst first_page_only = Returned
   \<and> yielded (trace (snd (snd first_page_only))) = [tw 9 1]
   \<and> max_id (fst (snd first_page_only)) = None"
  by (simp add: page_simps tw_proj)

theorem cursor_is_last_id_minus_one_witness:
  "[tw 9 1, tw 8 1] \<noteq> [] \<and> (0::int) < 5
   \<and> tweet_id (last [tw 9 1, tw 8 1]) \<le> tweet_id (tw 9 1)
   \<and> tweet_id (last [tw 9 1, tw 8 1]) \<le> tweet_id (tw 8 1)
   \<and> tweet_id (last [tw 9 1, tw 8 1]) \<le> 100
   \<and> max_id (fst (snd (pagination default_do_continue handler_handle ''nltk'' 5 ''en'' 0
         [Statuses [tw 9 1, tw 8 1]] 0 100 0 None (writer 5 None False False) world1))) = Some 7
   \<and> (7::int) = Min (tweet_id ` set [tw 9 1, tw 8 1]) - 1 \<and> (7::int) < 100"
  using cursor_is_last_id_minus_one [of "[tw 9 1, tw 8 1]" 0 5 default_do_continue handler_handle
          "writer 5 None False False" "''nltk''" "''en''" 100 world1 _ _ 0 "[]" 0 None None]
  by (simp add: tw_proj del: pagination.simps)


section \<open>The dispatch loop of the search engine\<close>


lemma balanced_refl [simp]: "balanced w w"
  by (simp add: balanced_def)


lemma balanced_emit [simp]: "\<not> is_written e \<Longrightarrow> balanced w (emit e w') = balanced w w'"
  by (simp add: balanced_def)

lemma balanced_emit_left [simp]: "\<not> is_written e \<Longrightarrow> balanced (emit e w) w' = balanced w w'"
  by (simp add: balanced_def)





















end
